theory Spec2Isabelle
  imports Complex_Main "HOL-Library.FSet" "HOL-Library.Multiset"
begin

section \<open>JavaScript numbers\<close>

text \<open>
  The page scripts compute with JavaScript Numbers, which are IEEE doubles. A finite
  double is the real number it stands for; the sign of a zero is not kept. The result
  of a division, a product, a sum or a difference is the double nearest to the exact
  result, with ties going to the even significand: \<open>fl\<close> rounds a real to 53 significant
  bits, and below the smallest normal double to a multiple of the smallest subnormal
  one. A result that rounds to the 1024th power of two or beyond is \<open>Infinity\<close> or
  \<open>-Infinity\<close>, \<open>x / 0\<close> is \<open>Infinity\<close>, \<open>-Infinity\<close> or \<open>NaN\<close>, and
  \<open>Math.min\<close>, \<open>Math.max\<close> and the arithmetic operators propagate \<open>NaN\<close>.
  Where both operands are pointer coordinates or pixel extents, whose sum or difference
  a double holds without rounding, the sum or difference is written exactly.
\<close>

text \<open>The integer nearest to \<open>t\<close>, the even one of two that are equally near.\<close>

definition round_even :: "real \<Rightarrow> int" where
  "round_even t =
     (let f = \<lfloor>t\<rfloor>; r = t - of_int f
      in if r < 1/2 then f else if 1/2 < r then f + 1 else if even f then f else f + 1)"

text \<open>The binary exponent of a nonzero real, not below that of the smallest normal
  double.\<close>

definition exponent :: "real \<Rightarrow> int" where
  "exponent x = max \<lfloor>log 2 \<bar>x\<bar>\<rfloor> (- 1022)"

text \<open>The distance between neighbouring doubles of the magnitude of \<open>x\<close>.\<close>

definition ulp :: "real \<Rightarrow> real" where
  "ulp x = 2 powr of_int (exponent x - 52)"

definition fl :: "real \<Rightarrow> real" where
  "fl x = (if x = 0 then 0 else of_int (round_even (x / ulp x)) * ulp x)"


datatype jsnum = NaN | NegInf | Fin real | PosInf

text \<open>The Number for an exact result \<open>z\<close>.\<close>

definition js_round :: "real \<Rightarrow> jsnum" where
  "js_round z =
     (if 2 ^ 1024 \<le> \<bar>fl z\<bar> then (if 0 < z then PosInf else NegInf) else Fin (fl z))"

text \<open>\<open>a / b\<close> for finite operands; a zero divisor is the positive zero of an
  element extent.\<close>

definition js_div :: "real \<Rightarrow> real \<Rightarrow> jsnum" where
  "js_div a b =
     (if b \<noteq> 0 then js_round (a / b)
      else if 0 < a then PosInf
      else if a < 0 then NegInf
      else NaN)"

text \<open>\<open>v * c\<close> for a finite factor \<open>c\<close>.\<close>

fun js_times :: "jsnum \<Rightarrow> real \<Rightarrow> jsnum" where
  "js_times NaN c = NaN"
| "js_times (Fin a) c = js_round (a * c)"
| "js_times PosInf c = (if 0 < c then PosInf else if c < 0 then NegInf else NaN)"
| "js_times NegInf c = (if 0 < c then NegInf else if c < 0 then PosInf else NaN)"

text \<open>\<open>c - v\<close> for a finite minuend \<open>c\<close>.\<close>

fun js_minus :: "real \<Rightarrow> jsnum \<Rightarrow> jsnum" where
  "js_minus c NaN = NaN"
| "js_minus c (Fin a) = js_round (c - a)"
| "js_minus c PosInf = NegInf"
| "js_minus c NegInf = PosInf"

fun js_le :: "jsnum \<Rightarrow> jsnum \<Rightarrow> bool" where
  "js_le NaN b = False"
| "js_le a NaN = False"
| "js_le NegInf b = True"
| "js_le a PosInf = True"
| "js_le (Fin a) (Fin b) = (a \<le> b)"
| "js_le a b = False"

definition Math_min :: "jsnum \<Rightarrow> jsnum \<Rightarrow> jsnum" where
  "Math_min a b = (if a = NaN \<or> b = NaN then NaN else if js_le a b then a else b)"

definition Math_max :: "jsnum \<Rightarrow> jsnum \<Rightarrow> jsnum" where
  "Math_max a b = (if a = NaN \<or> b = NaN then NaN else if js_le a b then b else a)"

section \<open>Split pane: the resize controller and the touch block\<close>

text \<open>
  \<open>SplitPaneController\<close> and the touch handlers registered on \<open>DOMContentLoaded\<close>
  write the inline sizes of the same two elements: \<open>#dev-section\<close> (the controller's
  primary section, the touch block's \<open>leftPanel\<close>) and \<open>#design-section\<close> (secondary,
  \<open>rightPanel\<close>). A size assigned through a template literal such as
  \<open>`${boundedPercentage}%`\<close> is kept as the number with its unit.
\<close>

datatype css_size = Percent jsnum | Vh jsnum | Px real

text \<open>What a handler reads from the layout when an event arrives.\<close>

record viewport =
  innerWidth :: nat
  innerHeight :: nat
  container_offsetWidth :: nat
  container_offsetHeight :: nat
  leftPanel_offsetHeight :: nat

text \<open>A mouse event, or \<open>e.touches[0]\<close> of a touch event.\<close>

record pointer =
  clientX :: real
  clientY :: real

record page =
  isDragging :: bool
  cursor :: string
  dev_width :: "css_size option"
  dev_height :: "css_size option"
  design_width :: "css_size option"
  design_height :: "css_size option"
  touch_isDragging :: bool
  startY :: real
  startHeight :: real
  divider_active :: bool

definition MIN_SIZE_PERCENTAGE :: real where
  "MIN_SIZE_PERCENTAGE = 20"

definition MAX_SIZE_PERCENTAGE :: real where
  "MAX_SIZE_PERCENTAGE = 80"

definition isDesktopViewport :: "viewport \<Rightarrow> bool" where
  "isDesktopViewport v = (1024 \<le> innerWidth v)"

definition getCursorStyle :: "viewport \<Rightarrow> string" where
  "getCursorStyle v = (if isDesktopViewport v then ''col-resize'' else ''row-resize'')"

definition handleDragStart :: "viewport \<Rightarrow> page \<Rightarrow> page" where
  "handleDragStart v s = s\<lparr>isDragging := True, cursor := getCursorStyle v\<rparr>"

definition getBoundedPercentage :: "jsnum \<Rightarrow> jsnum" where
  "getBoundedPercentage percentage =
     Math_max (Fin MIN_SIZE_PERCENTAGE) (Math_min (Fin MAX_SIZE_PERCENTAGE) percentage)"

definition handleHorizontalResize :: "viewport \<Rightarrow> real \<Rightarrow> page \<Rightarrow> page" where
  "handleHorizontalResize v x s =
     (let containerWidth = real (container_offsetWidth v);
          percentage = js_times (js_div x containerWidth) 100;
          boundedPercentage = getBoundedPercentage percentage
      in s\<lparr>dev_width := Some (Percent boundedPercentage),
            design_width := Some (Percent (js_minus 100 boundedPercentage))\<rparr>)"

definition handleVerticalResize :: "viewport \<Rightarrow> real \<Rightarrow> page \<Rightarrow> page" where
  "handleVerticalResize v y s =
     (let containerHeight = real (container_offsetHeight v);
          percentage = js_times (js_div y containerHeight) 100;
          boundedPercentage = getBoundedPercentage percentage
      in s\<lparr>dev_height := Some (Vh boundedPercentage),
            design_height := Some (Vh (js_minus 100 boundedPercentage))\<rparr>)"

definition handleDragMove :: "viewport \<Rightarrow> pointer \<Rightarrow> page \<Rightarrow> page" where
  "handleDragMove v e s =
     (if \<not> isDragging s then s
      else if isDesktopViewport v then handleHorizontalResize v (clientX e) s
      else handleVerticalResize v (clientY e) s)"

definition handleDragEnd :: "page \<Rightarrow> page" where
  "handleDragEnd s = s\<lparr>isDragging := False, cursor := ''default''\<rparr>"

subsection \<open>Listeners\<close>

text \<open>
  A listener returns the page it leaves and whether it called \<open>preventDefault\<close>.
  The touch block of \<open>main.js\<close> keeps its own \<open>isDragging\<close>, \<open>startY\<close> and
  \<open>startHeight\<close>.
\<close>

definition block_touchstart :: "viewport \<Rightarrow> pointer \<Rightarrow> page \<Rightarrow> page \<times> bool" where
  "block_touchstart v e s =
     (s\<lparr>touch_isDragging := True, startY := clientY e,
        startHeight := real (leftPanel_offsetHeight v), divider_active := True\<rparr>, True)"

definition newHeight :: "viewport \<Rightarrow> pointer \<Rightarrow> page \<Rightarrow> real" where
  "newHeight v e s =
     (let deltaY = clientY e - startY s
      in max 100 (min (startHeight s + deltaY) (real (innerHeight v) - 100)))"

definition block_touchmove :: "viewport \<Rightarrow> pointer \<Rightarrow> page \<Rightarrow> page \<times> bool" where
  "block_touchmove v e s =
     (if \<not> touch_isDragging s then (s, False)
      else (s\<lparr>dev_height := Some (Px (newHeight v e s)),
              design_height := Some (Px (real (innerHeight v) - newHeight v e s))\<rparr>, True))"

definition block_touchend :: "page \<Rightarrow> page \<times> bool" where
  "block_touchend s = (s\<lparr>touch_isDragging := False, divider_active := False\<rparr>, False)"

definition divider_touchmove :: "page \<Rightarrow> page \<times> bool" where
  "divider_touchmove s = (s, True)"

definition controller_touchstart :: "viewport \<Rightarrow> pointer \<Rightarrow> page \<Rightarrow> page \<times> bool" where
  "controller_touchstart v e s = (handleDragStart v s, True)"

definition controller_touchmove :: "viewport \<Rightarrow> pointer \<Rightarrow> page \<Rightarrow> page \<times> bool" where
  "controller_touchmove v e s = (handleDragMove v e s, isDragging s)"

definition controller_touchend :: "page \<Rightarrow> page \<times> bool" where
  "controller_touchend s = (handleDragEnd s, False)"

text \<open>Running one listener after another on the same event: the event's default is
  prevented when either listener prevented it.\<close>

definition and_then ::
  "(page \<Rightarrow> page \<times> bool) \<Rightarrow> (page \<Rightarrow> page \<times> bool) \<Rightarrow> page \<Rightarrow> page \<times> bool" where
  "and_then f g s = (let (s1, p1) = f s; (s2, p2) = g s1 in (s2, p1 \<or> p2))"

definition no_listener :: "page \<Rightarrow> page \<times> bool" where
  "no_listener s = (s, False)"

text \<open>
  Events of the split pane. \<open>MouseDown\<close> is a mouse-down on the divider, the only
  element with a listener for it. A touch event carries whether its target is the
  divider (a touch keeps the target it started on) and its first touch point. The touch
  block registers its listeners first, the controller is constructed in a later
  \<open>DOMContentLoaded\<close> listener; a listener on the divider runs before the listeners on
  the document.
\<close>

datatype event =
    MouseDown pointer
  | MouseMove pointer
  | MouseUp
  | TouchStart bool pointer
  | TouchMove bool pointer
  | TouchEnd

fun dispatch :: "viewport \<Rightarrow> event \<Rightarrow> page \<Rightarrow> page \<times> bool" where
  "dispatch v (MouseDown e) s = (handleDragStart v s, False)"
| "dispatch v (MouseMove e) s = (handleDragMove v e s, False)"
| "dispatch v MouseUp s = (handleDragEnd s, False)"
| "dispatch v (TouchStart on_divider e) s =
     (if on_divider then and_then (block_touchstart v e) (controller_touchstart v e) s
      else no_listener s)"
| "dispatch v (TouchMove on_divider e) s =
     and_then (if on_divider then divider_touchmove else no_listener)
       (and_then (block_touchmove v e) (controller_touchmove v e)) s"
| "dispatch v TouchEnd s = and_then block_touchend controller_touchend s"

fun run :: "(viewport \<times> event) list \<Rightarrow> page \<Rightarrow> page" where
  "run [] s = s"
| "run ((v, ev) # es) s = run es (fst (dispatch v ev s))"

definition initial_page :: page where
  "initial_page =
     \<lparr>isDragging = False, cursor = '''', dev_width = None, dev_height = None,
      design_width = None, design_height = None, touch_isDragging = False,
      startY = 0, startHeight = 0, divider_active = False\<rparr>"

subsection \<open>Example layouts and pointers\<close>

definition desktop_view :: viewport where
  "desktop_view =
     \<lparr>innerWidth = 1280, innerHeight = 800, container_offsetWidth = 1000,
      container_offsetHeight = 800, leftPanel_offsetHeight = 800\<rparr>"

definition phone_view :: viewport where
  "phone_view =
     \<lparr>innerWidth = 400, innerHeight = 1000, container_offsetWidth = 400,
      container_offsetHeight = 1000, leftPanel_offsetHeight = 500\<rparr>"

definition tiny_view :: viewport where
  "tiny_view =
     \<lparr>innerWidth = 400, innerHeight = 150, container_offsetWidth = 400,
      container_offsetHeight = 150, leftPanel_offsetHeight = 75\<rparr>"

definition collapsed_view :: viewport where
  "collapsed_view =
     \<lparr>innerWidth = 1280, innerHeight = 800, container_offsetWidth = 0,
      container_offsetHeight = 0, leftPanel_offsetHeight = 0\<rparr>"

definition pointer_at :: "real \<Rightarrow> real \<Rightarrow> pointer" where
  "pointer_at a b = \<lparr>clientX = a, clientY = b\<rparr>"

section \<open>Canvas animation\<close>

text \<open>
  \<open>CanvasAnimationController\<close>. A dot and a placed word both carry a position; the
  fields \<open>x\<close> and \<open>y\<close> of the objects are \<open>pos_x\<close> and \<open>pos_y\<close> here, and the \<open>text\<close>
  of a word is \<open>word_text\<close>. The arithmetic on the dots rounds every result to a
  double. Positions are finite: the model of the dots is the code for coordinates of
  magnitude up to the 1022nd power of two, where no difference of two coordinates
  overflows. The drawing calls on the 2D context leave no state behind and are left
  out.
\<close>

record point =
  pos_x :: real
  pos_y :: real

record dot = point +
  scale :: real
  color :: "int \<times> int \<times> int"
  speed :: real

text \<open>\<open>word_text\<close> is \<open>None\<close> for \<open>undefined\<close>, the value of an array read out of range.\<close>

record word = point +
  word_text :: "string option"
  rotation :: real
  alpha :: real

record canvas =
  dots :: "dot list"
  renderedWords :: "word list"
  usedWords :: "string option fset"
  lastTextPosition :: point
  mousePosition :: point

text \<open>The values that \<open>Math.random()\<close> returns in one frame, in the order of the calls:
  in \<open>handleWordGeneration\<close>, for the index in \<open>addText\<close>, for the rotation.\<close>

record draws =
  gate :: real
  pick :: real
  spin :: real

definition designTerms :: "string list" where
  "designTerms =
     [''UI Designer'', ''UX Design'', ''Motion'', ''Prototype'',
      ''Wireframe'', ''User Flow'', ''Research'', ''Figma'',
      ''Design System'', ''User Testing'', ''Interaction'']"

definition NUM_DOTS :: nat where
  "NUM_DOTS = 5"

text \<open>The object pushed by \<open>createDots\<close> at loop index \<open>i\<close>; the colour is kept as its
  three channels.\<close>

definition new_dot :: "point \<Rightarrow> nat \<Rightarrow> dot" where
  "new_dot m i =
     \<lparr>pos_x = pos_x m, pos_y = pos_y m,
      scale = fl (1 - fl (real i * fl (2 / 10))),
      color = (135 - int i * 10, 206 - int i * 5, 235 - int i * 12),
      speed = fl (fl (1 / 10) + fl (real i * fl (2 / 100)))\<rparr>"

definition createDots :: "canvas \<Rightarrow> canvas" where
  "createDots s = s\<lparr>dots := dots s @ map (new_dot (mousePosition s)) [0..<NUM_DOTS]\<rparr>"

text \<open>The \<open>mousemove\<close> listener of the canvas; the two reals are \<open>rect.left\<close> and
  \<open>rect.top\<close> of its bounding rectangle.\<close>

definition canvas_mousemove :: "pointer \<Rightarrow> real \<Rightarrow> real \<Rightarrow> canvas \<Rightarrow> canvas" where
  "canvas_mousemove e rect_left rect_top s =
     s\<lparr>mousePosition := \<lparr>pos_x = clientX e - rect_left, pos_y = clientY e - rect_top\<rparr>\<rparr>"

text \<open>\<open>dot.x += (this.mousePosition.x - dot.x) * dot.speed\<close>, and the same for
  \<open>y\<close>: the difference, the product and the sum are each rounded.\<close>

definition update_dot :: "point \<Rightarrow> dot \<Rightarrow> dot" where
  "update_dot m d =
     d\<lparr>pos_x := fl (pos_x d + fl (fl (pos_x m - pos_x d) * speed d)),
       pos_y := fl (pos_y d + fl (fl (pos_y m - pos_y d) * speed d))\<rparr>"

definition updateDots :: "canvas \<Rightarrow> canvas" where
  "updateDots s = s\<lparr>dots := map (update_dot (mousePosition s)) (dots s)\<rparr>"


definition Math_hypot :: "real \<Rightarrow> real \<Rightarrow> real" where
  "Math_hypot a b = sqrt (a\<^sup>2 + b\<^sup>2)"

text \<open>\<open>xs[i]\<close> for an integral index: \<open>undefined\<close> out of range.\<close>

definition element_at :: "'a list \<Rightarrow> int \<Rightarrow> 'a option" where
  "element_at xs i = (if 0 \<le> i \<and> i < int (length xs) then Some (xs ! nat i) else None)"

definition addText :: "draws \<Rightarrow> real \<Rightarrow> real \<Rightarrow> canvas \<Rightarrow> canvas" where
  "addText r x y s =
     (let distance = Math_hypot (x - pos_x (lastTextPosition s)) (y - pos_y (lastTextPosition s))
      in if distance < 150 then s
         else
           let availableTerms = filter (\<lambda>term. Some term |\<notin>| usedWords s) designTerms
           in if length availableTerms = 0 then s\<lparr>usedWords := {||}\<rparr>
              else
                let text = element_at availableTerms \<lfloor>pick r * real (length availableTerms)\<rfloor>
                in s\<lparr>renderedWords := renderedWords s @
                        [\<lparr>pos_x = x, pos_y = y, word_text = text,
                          rotation = spin r * 40 - 20, alpha = 0\<rparr>],
                      usedWords := finsert text (usedWords s),
                      lastTextPosition := \<lparr>pos_x = x, pos_y = y\<rparr>\<rparr>)"

definition handleWordGeneration :: "draws \<Rightarrow> canvas \<Rightarrow> canvas" where
  "handleWordGeneration r s =
     (if 0.95 < gate r \<and> fcard (usedWords s) < length designTerms
      then addText r (pos_x (mousePosition s) + 30) (pos_y (mousePosition s)) s
      else s)"

definition draw_word :: "word \<Rightarrow> word" where
  "draw_word w = (if alpha w < 1 then w\<lparr>alpha := alpha w + 0.05\<rparr> else w)"

definition drawWords :: "canvas \<Rightarrow> canvas" where
  "drawWords s = s\<lparr>renderedWords := map draw_word (renderedWords s)\<rparr>"

definition animateFrame :: "draws \<Rightarrow> canvas \<Rightarrow> canvas" where
  "animateFrame r s = drawWords (handleWordGeneration r (updateDots s))"

text \<open>The state the constructor leaves before the first frame.\<close>

definition new_canvas :: canvas where
  "new_canvas =
     createDots
       \<lparr>dots = [], renderedWords = [], usedWords = {||},
        lastTextPosition = \<lparr>pos_x = 0, pos_y = 0\<rparr>,
        mousePosition = \<lparr>pos_x = 0, pos_y = 0\<rparr>\<rparr>"

datatype canvas_event = MouseMoved pointer real real | Frame draws

fun canvas_step :: "canvas_event \<Rightarrow> canvas \<Rightarrow> canvas" where
  "canvas_step (MouseMoved e rect_left rect_top) s = canvas_mousemove e rect_left rect_top s"
| "canvas_step (Frame r) s = animateFrame r s"

fun canvas_run :: "canvas_event list \<Rightarrow> canvas \<Rightarrow> canvas" where
  "canvas_run [] s = s"
| "canvas_run (ev # evs) s = canvas_run evs (canvas_step ev s)"

subsection \<open>Observations on the canvas\<close>


text \<open>Each label of the list lies at least 150 pixels from the one placed before it.\<close>

fun spaced :: "'a point_scheme list \<Rightarrow> bool" where
  "spaced (p # q # ps) =
     (150 \<le> Math_hypot (pos_x q - pos_x p) (pos_y q - pos_y p) \<and> spaced (q # ps))"
| "spaced ps = True"

text \<open>The labels are spaced, and \<open>lastTextPosition\<close> is where the last one was put.\<close>

definition labels_ok :: "canvas \<Rightarrow> bool" where
  "labels_ok s \<longleftrightarrow>
     spaced (renderedWords s) \<and>
     (renderedWords s = [] \<or>
        pos_x (last (renderedWords s)) = pos_x (lastTextPosition s) \<and>
        pos_y (last (renderedWords s)) = pos_y (lastTextPosition s))"

text \<open>The texts of the placed labels, in the order of placement.\<close>

definition placed_texts :: "canvas \<Rightarrow> string option list" where
  "placed_texts s = map word_text (renderedWords s)"

text \<open>No vocabulary word stands on two labels, and every text on a label is recorded
  as used.\<close>

definition placed_once :: "canvas \<Rightarrow> bool" where
  "placed_once s \<longleftrightarrow>
     distinct (filter (\<lambda>t. t \<noteq> None) (placed_texts s)) \<and>
     set (placed_texts s) \<subseteq> fset (usedWords s)"

subsection \<open>Example runs of the canvas\<close>



definition lucky :: draws where
  "lucky = \<lparr>gate = 0.99, pick = 0, spin = 0.5\<rparr>"

text \<open>The pointer moves to \<open>(a, 0)\<close> and a frame with a winning draw follows.\<close>

definition place_at :: "real \<Rightarrow> canvas \<Rightarrow> canvas" where
  "place_at a s = canvas_run [MouseMoved (pointer_at a 0) 0 0, Frame lucky] s"

text \<open>Eleven such frames, the pointer alternating between two places 300 pixels apart:
  every word of the vocabulary gets placed.\<close>

definition filled_canvas :: canvas where
  "filled_canvas =
     foldl (\<lambda>s a. place_at a s) new_canvas
       [200, 500, 200, 500, 200, 500, 200, 500, 200, 500, 200]"

section \<open>Scroll observer: the parallax effect\<close>












section \<open>Project feeds\<close>

text \<open>
  The two renderers are asynchronous functions of what the network answers. The answer
  to a \<open>fetch\<close> is given as a value: the promise rejects with a message, or resolves
  to a response with its status whose \<open>json()\<close> rejects with a message or yields the
  parsed body. A thrown error is its message; for a \<open>TypeError\<close> raised by the engine,
  whose wording differs between engines, a text naming the cause stands in. The content
  assigned to the \<open>innerHTML\<close>
  of a container is kept in structured form: the spinner, an error block with its text,
  or the cards made from the entries, each card with the values put into the template.
\<close>

datatype js_error = Thrown (message: string)

datatype 'a body = Unparsable string | Parsed 'a

datatype 'a fetched = Rejected string | Response nat "'a body"

text \<open>\<open>response.ok\<close>: the status is in the range 200 to 299.\<close>

definition response_ok :: "nat \<Rightarrow> bool" where
  "response_ok status \<longleftrightarrow> 200 \<le> status \<and> status \<le> 299"

datatype 'c markup = Spinner | ErrorBlock string | Cards "'c list"

text \<open>A number in a template literal: its decimal digits.\<close>

definition digit_char :: "nat \<Rightarrow> char" where
  "digit_char d = ''0123456789'' ! d"

fun string_of_nat :: "nat \<Rightarrow> string" where
  "string_of_nat n =
     (if n < 10 then [digit_char n] else string_of_nat (n div 10) @ [digit_char (n mod 10)])"

declare string_of_nat.simps [simp del]

text \<open>\<open>v || d\<close> for a value that is a string or \<open>null\<close>: \<open>null\<close> and the empty string
  are falsy.\<close>

definition or_default :: "string option \<Rightarrow> string \<Rightarrow> string" where
  "or_default v d = (case v of None \<Rightarrow> d | Some s \<Rightarrow> if s = [] then d else s)"

subsection \<open>Repository feed\<close>

text \<open>An entry of the repository list with the fields the template reads (\<open>name\<close>,
  \<open>description\<close>, \<open>language\<close>, \<open>stargazers_count\<close>, \<open>html_url\<close>, \<open>homepage\<close>,
  \<open>private\<close>); \<open>None\<close> is \<open>null\<close>.\<close>

record repo =
  repo_name :: string
  description :: "string option"
  language :: "string option"
  stargazers_count :: nat
  html_url :: string
  homepage :: "string option"
  is_private :: bool

text \<open>The parsed body of the repository request: an array of entries, or any value for
  which \<open>Array.isArray\<close> is false.\<close>

datatype repos_json = NotArray | Array "repo list"

record repo_card =
  visibility :: string
  heading :: string
  blurb :: string
  language_label :: string
  stars :: nat
  source_link :: string
  demo_link :: "string option"

definition render_repo :: "repo \<Rightarrow> repo_card" where
  "render_repo r =
     \<lparr>visibility = (if is_private r then ''private'' else ''public''),
      heading = repo_name r,
      blurb = or_default (description r) ''No description available'',
      language_label = or_default (language r) ''N/A'',
      stars = stargazers_count r,
      source_link = html_url r,
      demo_link = (case homepage r of None \<Rightarrow> None
                   | Some h \<Rightarrow> if h = [] then None else Some h)\<rparr>"

text \<open>The \<open>try\<close> block of \<open>fetchGitHubRepos\<close> after the spinner is shown: the content
  it assigns last, or the error it throws.\<close>

definition fetchGitHubRepos_try :: "repos_json fetched \<Rightarrow> js_error + repo_card markup" where
  "fetchGitHubRepos_try answer =
     (case answer of
        Rejected m \<Rightarrow> Inl (Thrown m)
      | Response status b \<Rightarrow>
          if \<not> response_ok status
          then Inl (Thrown (''GitHub API error: '' @ string_of_nat status))
          else (case b of
                  Unparsable m \<Rightarrow> Inl (Thrown m)
                | Parsed NotArray \<Rightarrow>
                    Inr (ErrorBlock
                      ''Error: Could not load projects. Invalid data received from GitHub API.'')
                | Parsed (Array repos) \<Rightarrow> Inr (Cards (map render_repo repos))))"

text \<open>
  \<open>fetchGitHubRepos\<close> on the content of \<open>#projects-grid\<close> (\<open>None\<close> when the page has no
  such element): the content it leaves, or the error with which its promise rejects.
  Without the element the first assignment in the \<open>try\<close> block throws, and so does the
  assignment in the \<open>catch\<close> block.
\<close>

definition fetchGitHubRepos ::
  "repos_json fetched \<Rightarrow> repo_card markup option \<Rightarrow> js_error + repo_card markup option" where
  "fetchGitHubRepos answer projectsGrid =
     (case projectsGrid of
        None \<Rightarrow> Inl (Thrown ''TypeError: projectsGrid is null'')
      | Some old \<Rightarrow>
          (case fetchGitHubRepos_try answer of
             Inl error \<Rightarrow> Inr (Some (ErrorBlock (''Error loading projects: '' @ message error)))
           | Inr content \<Rightarrow> Inr (Some content)))"

subsection \<open>Design-file feed\<close>

text \<open>An entry of a file list; \<open>last_modified\<close> is the time that \<open>new Date\<close> makes of
  the field, in milliseconds.\<close>

record figma_file =
  file_name :: string
  file_key :: string
  thumbnail_url :: "string option"
  last_modified :: int

record project =
  project_id :: string

text \<open>
  A parsed body whose list property (\<open>projects\<close> of the team answer, \<open>files\<close> of a
  project answer) is read and iterated: the body is \<open>null\<close>, so that reading the
  property throws; or the property is missing or holds a value that cannot be iterated;
  or it holds an array of entries.
\<close>

datatype 'a listing = JsonNull | NoList | Items "'a list"

record figma_api =
  team_answer :: "project listing fetched"
  files_answer :: "string \<Rightarrow> figma_file listing fetched"

text \<open>The \<open>try\<close> block of \<open>getFigmaProjectFiles\<close>: it returns \<open>data.files\<close>, which is
  \<open>None\<close> here when it is not a list.\<close>

definition getFigmaProjectFiles_try ::
  "figma_api \<Rightarrow> string \<Rightarrow> js_error + figma_file list option" where
  "getFigmaProjectFiles_try api projectId =
     (case files_answer api projectId of
        Rejected m \<Rightarrow> Inl (Thrown m)
      | Response status (Unparsable m) \<Rightarrow> Inl (Thrown m)
      | Response status (Parsed JsonNull) \<Rightarrow> Inl (Thrown ''TypeError: data is null'')
      | Response status (Parsed NoList) \<Rightarrow> Inr None
      | Response status (Parsed (Items files)) \<Rightarrow> Inr (Some files))"

definition getFigmaProjectFiles :: "figma_api \<Rightarrow> string \<Rightarrow> figma_file list option" where
  "getFigmaProjectFiles api projectId =
     (case getFigmaProjectFiles_try api projectId of
        Inl error \<Rightarrow> Some []
      | Inr files \<Rightarrow> files)"

record figma_card =
  thumbnail :: "string option"
  modified :: int
  caption :: string
  file_link :: string

definition renderFigmaProject :: "figma_file \<Rightarrow> figma_card" where
  "renderFigmaProject file =
     \<lparr>thumbnail = (case thumbnail_url file of None \<Rightarrow> None
                    | Some u \<Rightarrow> if u = [] then None else Some u),
      modified = last_modified file,
      caption = file_name file,
      file_link = ''https://www.figma.com/file/'' @ file_key file\<rparr>"

definition renderFigmaProjects ::
  "figma_file list \<Rightarrow> figma_card markup option \<Rightarrow> figma_card markup option" where
  "renderFigmaProjects files projectsContainer =
     (case projectsContainer of
        None \<Rightarrow> None
      | Some old \<Rightarrow> Some (Cards (map renderFigmaProject files)))"

text \<open>The loop over the projects, with \<open>allFiles\<close> as accumulator; spreading a value
  that is not a list throws.\<close>

fun collect_files :: "figma_api \<Rightarrow> project list \<Rightarrow> figma_file list \<Rightarrow> js_error + figma_file list" where
  "collect_files api [] allFiles = Inr allFiles"
| "collect_files api (p # ps) allFiles =
     (case getFigmaProjectFiles api (project_id p) of
        None \<Rightarrow> Inl (Thrown ''TypeError: files is not iterable'')
      | Some files \<Rightarrow> collect_files api ps (allFiles @ files))"

text \<open>
  \<open>Array.prototype.sort\<close> with a comparator: the result is ordered by the comparator
  and stable. It is modelled by a stable insertion sort: \<open>a\<close> goes before \<open>b\<close> unless
  \<open>cmp a b > 0\<close>.
\<close>

fun insert_by :: "('a \<Rightarrow> 'a \<Rightarrow> int) \<Rightarrow> 'a \<Rightarrow> 'a list \<Rightarrow> 'a list" where
  "insert_by cmp a [] = [a]"
| "insert_by cmp a (b # bs) = (if cmp a b \<le> 0 then a # b # bs else b # insert_by cmp a bs)"

fun sort_by :: "('a \<Rightarrow> 'a \<Rightarrow> int) \<Rightarrow> 'a list \<Rightarrow> 'a list" where
  "sort_by cmp [] = []"
| "sort_by cmp (a # as) = insert_by cmp a (sort_by cmp as)"

text \<open>The comparator \<open>(a, b) => new Date(b.last_modified) - new Date(a.last_modified)\<close>.\<close>

definition newest_first :: "figma_file \<Rightarrow> figma_file \<Rightarrow> int" where
  "newest_first a b = last_modified b - last_modified a"

text \<open>The \<open>try\<close> block of \<open>fetchRecentFigmaFiles\<close> up to \<open>recentFiles\<close>.\<close>

definition recentFiles :: "figma_api \<Rightarrow> js_error + figma_file list" where
  "recentFiles api =
     (case team_answer api of
        Rejected m \<Rightarrow> Inl (Thrown m)
      | Response status (Unparsable m) \<Rightarrow> Inl (Thrown m)
      | Response status (Parsed JsonNull) \<Rightarrow> Inl (Thrown ''TypeError: projectsData is null'')
      | Response status (Parsed NoList) \<Rightarrow>
          Inl (Thrown ''TypeError: projectsData.projects is not iterable'')
      | Response status (Parsed (Items projects)) \<Rightarrow>
          (case collect_files api projects [] of
             Inl error \<Rightarrow> Inl error
           | Inr allFiles \<Rightarrow> Inr (take 5 (sort_by newest_first allFiles))))"

text \<open>\<open>fetchRecentFigmaFiles\<close> on the content of \<open>#design-projects\<close> (\<open>None\<close> when the
  page has no such element): the content it leaves.\<close>

definition fetchRecentFigmaFiles ::
  "figma_api \<Rightarrow> figma_card markup option \<Rightarrow> figma_card markup option" where
  "fetchRecentFigmaFiles api projectsContainer =
     (case projectsContainer of
        None \<Rightarrow> None
      | Some old \<Rightarrow>
          (case recentFiles api of
             Inl error \<Rightarrow> Some (ErrorBlock (message error))
           | Inr files \<Rightarrow> renderFigmaProjects files (Some Spinner)))"

subsection \<open>Failures of the feeds\<close>

text \<open>A failure of the repository request: the fetch is rejected, the status is
  outside 200 to 299, the body cannot be parsed, or the parsed body is not an array.\<close>

definition repository_failure :: "repos_json fetched \<Rightarrow> bool" where
  "repository_failure answer =
     (case answer of
        Rejected m \<Rightarrow> True
      | Response status b \<Rightarrow>
          (if response_ok status
           then (case b of Unparsable m \<Rightarrow> True | Parsed NotArray \<Rightarrow> True
                 | Parsed (Array repos) \<Rightarrow> False)
           else True))"

text \<open>An answer of the design-tool service that yields no list: the fetch is rejected,
  the body cannot be parsed, the body is \<open>null\<close>, or its list property cannot be
  iterated.\<close>

definition without_list :: "'a listing fetched \<Rightarrow> bool" where
  "without_list answer =
     (case answer of
        Rejected m \<Rightarrow> True
      | Response status (Unparsable m) \<Rightarrow> True
      | Response status (Parsed JsonNull) \<Rightarrow> True
      | Response status (Parsed NoList) \<Rightarrow> True
      | Response status (Parsed (Items entries)) \<Rightarrow> False)"

text \<open>The failures of a file-list request that throw inside the \<open>try\<close> block of
  \<open>getFigmaProjectFiles\<close>.\<close>

definition swallowed :: "'a listing fetched \<Rightarrow> bool" where
  "swallowed answer =
     (case answer of
        Rejected m \<Rightarrow> True
      | Response status (Unparsable m) \<Rightarrow> True
      | Response status (Parsed JsonNull) \<Rightarrow> True
      | Response status (Parsed NoList) \<Rightarrow> False
      | Response status (Parsed (Items entries)) \<Rightarrow> False)"

text \<open>\<open>a\<close> was not modified before \<open>b\<close>.\<close>

definition not_older :: "figma_file \<Rightarrow> figma_file \<Rightarrow> bool" where
  "not_older a b \<longleftrightarrow> last_modified b \<le> last_modified a"

subsection \<open>Example answers\<close>

definition example_file :: "string \<Rightarrow> int \<Rightarrow> figma_file" where
  "example_file n t = \<lparr>file_name = n, file_key = n, thumbnail_url = None, last_modified = t\<rparr>"

text \<open>Two projects with three and four files.\<close>

definition example_api :: figma_api where
  "example_api =
     \<lparr>team_answer =
        Response 200 (Parsed (Items [\<lparr>project_id = ''p1''\<rparr>, \<lparr>project_id = ''p2''\<rparr>])),
      files_answer = (\<lambda>i.
        if i = ''p1''
        then Response 200 (Parsed (Items
               [example_file ''a'' 30, example_file ''b'' 10, example_file ''c'' 50]))
        else Response 200 (Parsed (Items
               [example_file ''d'' 20, example_file ''e'' 70, example_file ''f'' 40,
                example_file ''g'' 60])))\<rparr>"

text \<open>The team request succeeds with one project; every file-list request is rejected.\<close>

definition files_down_api :: figma_api where
  "files_down_api =
     \<lparr>team_answer = Response 200 (Parsed (Items [\<lparr>project_id = ''p1''\<rparr>])),
      files_answer = (\<lambda>i. Rejected ''Failed to fetch'')\<rparr>"

text \<open>The team request succeeds with one project; the file-list answer is an error
  object without \<open>files\<close>.\<close>

definition files_denied_api :: figma_api where
  "files_denied_api =
     \<lparr>team_answer = Response 200 (Parsed (Items [\<lparr>project_id = ''p1''\<rparr>])),
      files_answer = (\<lambda>i. Response 403 (Parsed NoList))\<rparr>"

text \<open>The team request is rejected.\<close>

definition team_down_api :: figma_api where
  "team_down_api =
     \<lparr>team_answer = Rejected ''Failed to fetch'',
      files_answer = (\<lambda>i. Rejected ''Failed to fetch'')\<rparr>"

section \<open>Properties of rounding to doubles\<close>

text \<open>Rounding is odd, monotone and idempotent, and it errs by at most half the
  spacing of the doubles around its argument.\<close>

lemma round_even_cases:
  "round_even t = \<lfloor>t\<rfloor> \<or> round_even t = \<lfloor>t\<rfloor> + 1"
  by (simp add: round_even_def Let_def)

lemma round_even_error: "\<bar>of_int (round_even t) - t\<bar> \<le> 1/2"
proof -
  define f where "f = \<lfloor>t\<rfloor>"
  have "of_int f \<le> t" "t < of_int f + 1" unfolding f_def by linarith+
  moreover have "round_even t =
     (if t - of_int f < 1/2 then f else if 1/2 < t - of_int f then f + 1
      else if even f then f else f + 1)"
    by (simp add: round_even_def Let_def f_def)
  ultimately show ?thesis
    by (simp add: abs_if)
qed

lemma round_even_of_int [simp]: "round_even (of_int n) = n"
  by (simp add: round_even_def)

lemma round_even_mono: "s \<le> t \<Longrightarrow> round_even s \<le> round_even t"
proof -
  assume st: "s \<le> t"
  then have fl: "\<lfloor>s\<rfloor> \<le> \<lfloor>t\<rfloor>" by (rule floor_mono)
  show ?thesis
  proof (cases "\<lfloor>s\<rfloor> = \<lfloor>t\<rfloor>")
    case True
    with st show ?thesis
      by (auto simp: round_even_def Let_def)
  next
    case False
    with fl have "\<lfloor>s\<rfloor> + 1 \<le> \<lfloor>t\<rfloor>" by simp
    moreover have "round_even s \<le> \<lfloor>s\<rfloor> + 1" using round_even_cases[of s] by auto
    moreover have "\<lfloor>t\<rfloor> \<le> round_even t" using round_even_cases[of t] by auto
    ultimately show ?thesis by linarith
  qed
qed

lemma round_even_minus: "round_even (- t) = - round_even t"
proof (cases "t = of_int \<lfloor>t\<rfloor>")
  case True
  then have "round_even t = \<lfloor>t\<rfloor>" by (metis round_even_of_int)
  moreover from True have "- t = of_int (- \<lfloor>t\<rfloor>)" by simp
  then have "round_even (- t) = - \<lfloor>t\<rfloor>" by (metis round_even_of_int)
  ultimately show ?thesis by simp
next
  case False
  define f where "f = \<lfloor>t\<rfloor>"
  have le: "of_int f \<le> t" and ub: "t < of_int f + 1" unfolding f_def by linarith+
  from False have "t \<noteq> of_int f" by (simp add: f_def)
  with le have lt: "of_int f < t" by linarith
  have g: "\<lfloor>- t\<rfloor> = - f - 1"
    using lt ub by (intro floor_unique) simp_all
  have r1: "round_even t =
     (if t - of_int f < 1/2 then f else if 1/2 < t - of_int f then f + 1
      else if even f then f else f + 1)"
    by (simp add: round_even_def Let_def f_def)
  have r2: "round_even (- t) =
     (if - t - of_int (- f - 1) < 1/2 then - f - 1 else if 1/2 < - t - of_int (- f - 1) then - f
      else if even (- f - 1) then - f - 1 else - f)"
    by (simp add: round_even_def Let_def g)
  show ?thesis
    unfolding r1 r2 by (auto simp: algebra_simps)
qed


lemma ulp_pos: "0 < ulp x"
  by (simp add: ulp_def)

lemma exponent_minus: "exponent (- x) = exponent x"
  by (simp add: exponent_def)

lemma ulp_minus: "ulp (- x) = ulp x"
  by (simp add: ulp_def exponent_minus)

lemma fl_minus: "fl (- x) = - fl x"
  by (simp add: fl_def ulp_minus round_even_minus)

lemma fl_error: "\<bar>fl x - x\<bar> \<le> ulp x / 2"
proof (cases "x = 0")
  case True
  then show ?thesis using ulp_pos[of x] by (simp add: fl_def)
next
  case False
  let ?u = "ulp x"
  have "\<bar>of_int (round_even (x / ?u)) - x / ?u\<bar> * ?u \<le> 1/2 * ?u"
    using round_even_error[of "x / ?u"] ulp_pos[of x] by (intro mult_right_mono) simp_all
  moreover have "\<bar>of_int (round_even (x / ?u)) - x / ?u\<bar> * ?u
      = \<bar>(of_int (round_even (x / ?u)) - x / ?u) * ?u\<bar>"
    using ulp_pos[of x] by (simp add: abs_mult)
  moreover have "(of_int (round_even (x / ?u)) - x / ?u) * ?u
      = of_int (round_even (x / ?u)) * ?u - x"
    using ulp_pos[of x] by (simp add: left_diff_distrib)
  ultimately show ?thesis using False by (simp add: fl_def)
qed

lemma ulp_scale:
  "2 ^ 52 * ulp x = 2 powr of_int (exponent x)"
  "2 ^ 53 * ulp x = 2 powr of_int (exponent x + 1)"
proof -
  have u: "ulp x = 2 powr of_int (exponent x) / 2 ^ 52"
    by (simp add: ulp_def powr_diff)
  show "2 ^ 52 * ulp x = 2 powr of_int (exponent x)"
    by (simp add: u)
  show "2 ^ 53 * ulp x = 2 powr of_int (exponent x + 1)"
    by (simp add: u powr_add)
qed

lemma exponent_lower: "- 1022 \<le> exponent x"
  by (simp add: exponent_def)

lemma below_next_binade:
  assumes "0 < x"
  shows "x < 2 powr of_int (exponent x + 1)"
proof -
  have "log 2 x < of_int (\<lfloor>log 2 x\<rfloor> + 1)" by linarith
  also have "\<dots> \<le> of_int (exponent x + 1)"
    using assms by (simp add: exponent_def)
  finally have "log 2 x < of_int (exponent x + 1)" .
  then show ?thesis using assms by (simp add: log_less_iff)
qed

lemma above_binade:
  assumes "0 < x" and "- 1022 < exponent x"
  shows "2 powr of_int (exponent x) \<le> x"
proof -
  from assms have "exponent x = \<lfloor>log 2 x\<rfloor>" by (simp add: exponent_def max_def split: if_splits)
  then have "of_int (exponent x) \<le> log 2 x" by simp
  then show ?thesis using assms(1) by (simp add: le_log_iff)
qed

lemma exponent_mono:
  assumes "0 < x" "x \<le> y"
  shows "exponent x \<le> exponent y"
proof -
  have "log 2 x \<le> log 2 y" using assms by simp
  then have "\<lfloor>log 2 x\<rfloor> \<le> \<lfloor>log 2 y\<rfloor>" by (rule floor_mono)
  then show ?thesis using assms by (simp add: exponent_def)
qed

lemma scaled_upper:
  assumes "0 < x"
  shows "x / ulp x < 2 ^ 53"
proof -
  have "x < 2 powr of_int (exponent x + 1)" by (rule below_next_binade[OF assms])
  also have "\<dots> = 2 ^ 53 * ulp x"
    by (simp only: ulp_scale)
  finally show "x / ulp x < 2 ^ 53"
    using ulp_pos[of x] by (simp only: pos_divide_less_eq)
qed

lemma scaled_lower:
  assumes "0 < x" and "- 1022 < exponent x"
  shows "2 ^ 52 \<le> x / ulp x"
proof -
  have "2 ^ 52 * ulp x = 2 powr of_int (exponent x)"
    by (simp only: ulp_scale)
  also have "\<dots> \<le> x" by (rule above_binade[OF assms])
  finally show "2 ^ 52 \<le> x / ulp x"
    using ulp_pos[of x] by (simp only: pos_le_divide_eq)
qed

lemma fl_nonneg: "0 \<le> x \<Longrightarrow> 0 \<le> fl x"
proof -
  assume "0 \<le> x"
  then have "0 \<le> x / ulp x" using ulp_pos[of x] by simp
  then have "round_even 0 \<le> round_even (x / ulp x)" by (rule round_even_mono)
  moreover have "round_even 0 = 0" using round_even_of_int[of 0] by simp
  ultimately show ?thesis using ulp_pos[of x] by (simp add: fl_def)
qed

lemma fl_upper:
  assumes "0 < x"
  shows "fl x \<le> 2 powr of_int (exponent x + 1)"
proof -
  have "round_even (x / ulp x) \<le> round_even (of_int (2 ^ 53))"
    using scaled_upper[OF assms] by (intro round_even_mono) simp
  then have "round_even (x / ulp x) \<le> 2 ^ 53" by (simp only: round_even_of_int)
  then have "real_of_int (round_even (x / ulp x)) \<le> 2 ^ 53"
    by (metis of_int_le_iff of_int_numeral of_int_power)
  then have "fl x \<le> 2 ^ 53 * ulp x"
    using assms ulp_pos[of x] by (simp add: fl_def)
  also have "\<dots> = 2 powr of_int (exponent x + 1)"
    by (simp only: ulp_scale)
  finally show ?thesis .
qed

lemma fl_lower:
  assumes "0 < x" and "- 1022 < exponent x"
  shows "2 powr of_int (exponent x) \<le> fl x"
proof -
  have "round_even (of_int (2 ^ 52)) \<le> round_even (x / ulp x)"
    using scaled_lower[OF assms] by (intro round_even_mono) simp
  then have "2 ^ 52 \<le> round_even (x / ulp x)" by (simp only: round_even_of_int)
  then have "2 ^ 52 \<le> real_of_int (round_even (x / ulp x))"
    by (metis of_int_le_iff of_int_numeral of_int_power)
  then have "2 ^ 52 * ulp x \<le> fl x"
    using assms ulp_pos[of x] by (simp add: fl_def)
  moreover have "2 ^ 52 * ulp x = 2 powr of_int (exponent x)"
    by (simp only: ulp_scale)
  ultimately show ?thesis by simp
qed

lemma fl_mono_pos:
  assumes "0 < x" "x \<le> y"
  shows "fl x \<le> fl y"
proof (cases "exponent x = exponent y")
  case True
  then have u: "ulp x = ulp y" by (simp add: ulp_def)
  have "x / ulp y \<le> y / ulp y" using assms ulp_pos[of y] by (simp add: divide_right_mono)
  then have "round_even (x / ulp y) \<le> round_even (y / ulp y)" by (rule round_even_mono)
  then show ?thesis using assms ulp_pos[of y] by (simp add: fl_def u)
next
  case False
  with exponent_mono[OF assms] have lt: "exponent x + 1 \<le> exponent y" by simp
  with exponent_lower[of x] have n: "- 1022 < exponent y" by linarith
  have y: "0 < y" using assms by simp
  have "fl x \<le> 2 powr of_int (exponent x + 1)" by (rule fl_upper[OF assms(1)])
  also have "\<dots> \<le> 2 powr of_int (exponent y)" using lt by (intro powr_mono) simp_all
  also have "\<dots> \<le> fl y" by (rule fl_lower[OF y n])
  finally show ?thesis .
qed

lemma fl_mono: "x \<le> y \<Longrightarrow> fl x \<le> fl y"
proof -
  assume xy: "x \<le> y"
  consider "0 < x" | "x \<le> 0" "0 \<le> y" | "y < 0" by linarith
  then show ?thesis
  proof cases
    case 1
    then show ?thesis using xy by (rule fl_mono_pos)
  next
    case 2
    have "fl x \<le> 0" using fl_nonneg[of "- x"] 2(1) by (simp add: fl_minus)
    also have "0 \<le> fl y" using 2(2) by (rule fl_nonneg)
    finally show ?thesis .
  next
    case 3
    then have "fl (- y) \<le> fl (- x)" using xy by (intro fl_mono_pos) simp_all
    then show ?thesis by (simp add: fl_minus)
  qed
qed


lemma exponent_upper:
  assumes "0 < y" and "y < 2 powr of_int (e + 1)" and "- 1022 \<le> e"
  shows "exponent y \<le> e"
proof -
  from assms(1,2) have "log 2 y < of_int (e + 1)" by (simp add: log_less_iff)
  then have "\<lfloor>log 2 y\<rfloor> < e + 1" by (simp only: floor_less_iff)
  then show ?thesis using assms(1,3) by (simp add: exponent_def)
qed

lemma exponent_eq:
  assumes "2 powr of_int e \<le> \<bar>x\<bar>" and "\<bar>x\<bar> < 2 powr of_int (e + 1)" and "- 1022 \<le> e"
  shows "exponent x = e"
proof -
  have pos: "0 < \<bar>x\<bar>" using assms(1) by (smt (verit) powr_gt_zero)
  from assms(1) pos have "of_int e \<le> log 2 \<bar>x\<bar>" by (simp add: le_log_iff)
  moreover from assms(2) pos have "log 2 \<bar>x\<bar> < of_int e + 1" by (simp add: log_less_iff)
  ultimately have "\<lfloor>log 2 \<bar>x\<bar>\<rfloor> = e" by (intro floor_unique) simp_all
  then show ?thesis using assms(3) by (simp add: exponent_def)
qed












subsection \<open>Rounding at a known magnitude\<close>

lemma two_powr_nat: "(2::real) powr of_int (int k) = 2 ^ k"
  by (simp add: powr_realpow)

lemma two_powr_minus_nat: "(2::real) powr of_int (- int k) = 1 / 2 ^ k"
proof -
  have "(2::real) powr of_int (- int k) = 2 powr (- of_int (int k))" by simp
  also have "\<dots> = 1 / 2 powr of_int (int k)" by (rule powr_minus_divide)
  finally show ?thesis by (simp only: two_powr_nat)
qed

lemma two_powr_succ: "(2::real) powr of_int (e + 1) = 2 * 2 powr of_int e"
proof -
  have "(2::real) powr of_int (e + 1) = 2 powr of_int e * 2 powr 1"
    by (simp only: of_int_add of_int_1 powr_add)
  then show ?thesis by simp
qed

lemma fl_in_binade:
  assumes "2 powr of_int e \<le> \<bar>x\<bar>" and "\<bar>x\<bar> < 2 powr of_int (e + 1)" and "- 1022 \<le> e"
  shows "fl x = of_int (round_even (x / 2 powr of_int (e - 52))) * 2 powr of_int (e - 52)"
proof -
  have "0 < \<bar>x\<bar>" using assms(1) by (smt (verit) powr_gt_zero)
  then have "x \<noteq> 0" by simp
  moreover have "exponent x = e" by (rule exponent_eq[OF assms])
  ultimately show ?thesis by (simp add: fl_def ulp_def)
qed

lemma fl_at_least_one:
  assumes "2 ^ n \<le> \<bar>x\<bar>" and "\<bar>x\<bar> < 2 * 2 ^ n" and "n \<le> 52"
  shows "fl x = of_int (round_even (x * 2 ^ (52 - n))) / 2 ^ (52 - n)"
proof -
  have a1: "2 powr of_int (int n) \<le> \<bar>x\<bar>" using assms(1) by (simp only: two_powr_nat)
  have a2: "\<bar>x\<bar> < 2 powr of_int (int n + 1)"
    using assms(2) by (simp only: two_powr_succ two_powr_nat)
  have a3: "- 1022 \<le> int n" by simp
  have "int n - 52 = - int (52 - n)" using assms(3) by simp
  then have r: "(2::real) powr of_int (int n - 52) = 1 / 2 ^ (52 - n)"
    by (simp only: two_powr_minus_nat)
  have "fl x = of_int (round_even (x / (1 / 2 ^ (52 - n)))) * (1 / 2 ^ (52 - n))"
    using fl_in_binade[OF a1 a2 a3] by (simp only: r)
  then show ?thesis by simp
qed

lemma fl_below_one:
  assumes "1 / 2 ^ n \<le> \<bar>x\<bar>" and "\<bar>x\<bar> < 2 / 2 ^ n" and "n \<le> 1022"
  shows "fl x = of_int (round_even (x * 2 ^ (52 + n))) / 2 ^ (52 + n)"
proof -
  have a1: "2 powr of_int (- int n) \<le> \<bar>x\<bar>" using assms(1) by (simp only: two_powr_minus_nat)
  have "\<bar>x\<bar> < 2 * (1 / 2 ^ n)" using assms(2) by simp
  then have a2: "\<bar>x\<bar> < 2 powr of_int (- int n + 1)"
    by (simp only: two_powr_succ two_powr_minus_nat)
  have a3: "- 1022 \<le> - int n" using assms(3) by simp
  have "- int n - 52 = - int (52 + n)" by simp
  then have r: "(2::real) powr of_int (- int n - 52) = 1 / 2 ^ (52 + n)"
    by (simp only: two_powr_minus_nat)
  have "fl x = of_int (round_even (x / (1 / 2 ^ (52 + n)))) * (1 / 2 ^ (52 + n))"
    using fl_in_binade[OF a1 a2 a3] by (simp only: r)
  then show ?thesis by simp
qed

subsection \<open>Some doubles\<close>



lemma fl_20: "fl 20 = 20"
  using fl_at_least_one[of 4 20] by (simp add: round_even_def Let_def)



lemma fl_80: "fl 80 = 80"
  using fl_at_least_one[of 6 80] by (simp add: round_even_def Let_def)



section \<open>Properties of the split pane\<close>

lemma js_round_not_NaN: "js_round z \<noteq> NaN"
  by (simp add: js_round_def)

lemma getBoundedPercentage_cases:
  "getBoundedPercentage NaN = NaN"
  "getBoundedPercentage PosInf = Fin 80"
  "getBoundedPercentage NegInf = Fin 20"
  "getBoundedPercentage (Fin p) = Fin (max 20 (min 80 p))"
  by (auto simp: getBoundedPercentage_def Math_max_def Math_min_def
      MIN_SIZE_PERCENTAGE_def MAX_SIZE_PERCENTAGE_def)

lemma percentage_not_NaN:
  assumes "w \<noteq> 0 \<or> a \<noteq> 0"
  shows "js_times (js_div a w) 100 \<noteq> NaN"
proof (cases "js_div a w")
  case NaN
  with assms show ?thesis by (auto simp: js_div_def js_round_not_NaN split: if_splits)
next
  case (Fin r)
  then show ?thesis by (simp add: js_round_not_NaN)
qed simp_all

lemma bounded_in_range:
  assumes "p \<noteq> NaN"
  shows "\<exists>b. getBoundedPercentage p = Fin b \<and> 20 \<le> b \<and> b \<le> 80"
  using assms by (cases p) (auto simp: getBoundedPercentage_cases)

text \<open>The size of the second section: \<open>100 - b\<close> for a bounded percentage \<open>b\<close> is
  rounded to a double, which lies within the bounds as well and misses the exact
  difference by at most \<open>1 / 2 ^ 47\<close>.\<close>

lemma remainder_in_range:
  assumes "20 \<le> b" and "b \<le> 80"
  shows "\<exists>q. js_minus 100 (Fin b) = Fin q \<and> 20 \<le> q \<and> q \<le> 80
           \<and> \<bar>b + q - 100\<bar> \<le> 1 / 2 ^ 47"
proof -
  let ?z = "100 - b"
  have z: "20 \<le> ?z" "?z \<le> 80" using assms by simp_all
  have "fl 20 \<le> fl ?z" using z(1) by (rule fl_mono)
  then have lo: "20 \<le> fl ?z" by (simp only: fl_20)
  have "fl ?z \<le> fl 80" using z(2) by (rule fl_mono)
  then have hi: "fl ?z \<le> 80" by (simp only: fl_80)
  have "?z < 2 powr of_int (6 + 1)" using z(2) by simp
  then have "exponent ?z \<le> 6" using z(1) by (intro exponent_upper) simp_all
  then have "ulp ?z \<le> 2 powr of_int (6 - 52)"
    unfolding ulp_def by (intro powr_mono) simp_all
  also have "\<dots> = 1 / 2 ^ 46" using two_powr_minus_nat[of 46] by simp
  finally have "ulp ?z / 2 \<le> 1 / 2 ^ 47" by simp
  with fl_error[of ?z] have err: "\<bar>fl ?z - ?z\<bar> \<le> 1 / 2 ^ 47" by linarith
  have "\<bar>fl ?z\<bar> < 2 ^ 1024" using lo hi by simp
  then have "js_minus 100 (Fin b) = Fin (fl ?z)" by (simp add: js_round_def)
  moreover have "\<bar>b + fl ?z - 100\<bar> = \<bar>fl ?z - ?z\<bar>" by (simp add: algebra_simps)
  ultimately show ?thesis using lo hi err by auto
qed

text \<open>
  C1, as the code has it. While the controller is Dragging, a drag-move whose pointer
  coordinate and container extent along the active axis are not both zero writes a
  primary size \<open>p\<close> with \<open>20 \<le> p \<le> 80\<close> and a secondary size \<open>q\<close>, the double nearest
  to \<open>100 - p\<close>, with \<open>20 \<le> q \<le> 80\<close>; the two sum to 100 up to the rounding of that
  difference, which is at most \<open>1 / 2 ^ 47\<close>: width percent when
  \<open>innerWidth \<ge> 1024\<close>, \<open>vh\<close> heights otherwise.
\<close>

theorem drag_move_bounded_percentage:
  assumes "isDragging s"
    and "if isDesktopViewport v then container_offsetWidth v \<noteq> 0 \<or> clientX e \<noteq> 0
         else container_offsetHeight v \<noteq> 0 \<or> clientY e \<noteq> 0"
  shows "\<exists>p q. 20 \<le> p \<and> p \<le> 80 \<and> 20 \<le> q \<and> q \<le> 80 \<and>
      js_minus 100 (Fin p) = Fin q \<and> \<bar>p + q - 100\<bar> \<le> 1 / 2 ^ 47 \<and>
      (if isDesktopViewport v
       then dev_width (handleDragMove v e s) = Some (Percent (Fin p)) \<and>
            design_width (handleDragMove v e s) = Some (Percent (Fin q))
       else dev_height (handleDragMove v e s) = Some (Vh (Fin p)) \<and>
            design_height (handleDragMove v e s) = Some (Vh (Fin q)))"
proof (cases "isDesktopViewport v")
  case True
  let ?pc = "js_times (js_div (clientX e) (real (container_offsetWidth v))) 100"
  from True assms(2) have "?pc \<noteq> NaN"
    by (intro percentage_not_NaN) auto
  from bounded_in_range[OF this] obtain b where
    b: "getBoundedPercentage ?pc = Fin b" "20 \<le> b" "b \<le> 80" by blast
  from remainder_in_range[OF b(2,3)] obtain q where
    q: "js_minus 100 (Fin b) = Fin q" "20 \<le> q" "q \<le> 80" "\<bar>b + q - 100\<bar> \<le> 1 / 2 ^ 47"
    by blast
  show ?thesis
    using True assms(1) b q
    by (intro exI[of _ b] exI[of _ q])
       (simp add: handleDragMove_def handleHorizontalResize_def Let_def)
next
  case False
  let ?pc = "js_times (js_div (clientY e) (real (container_offsetHeight v))) 100"
  from False assms(2) have "?pc \<noteq> NaN"
    by (intro percentage_not_NaN) auto
  from bounded_in_range[OF this] obtain b where
    b: "getBoundedPercentage ?pc = Fin b" "20 \<le> b" "b \<le> 80" by blast
  from remainder_in_range[OF b(2,3)] obtain q where
    q: "js_minus 100 (Fin b) = Fin q" "20 \<le> q" "q \<le> 80" "\<bar>b + q - 100\<bar> \<le> 1 / 2 ^ 47"
    by blast
  show ?thesis
    using False assms(1) b q
    by (intro exI[of _ b] exI[of _ q])
       (simp add: handleDragMove_def handleVerticalResize_def Let_def)
qed

text \<open>The theorem at a drag on a 1280 pixel wide viewport, pointer at \<open>x = 300\<close> over a
  container 1000 pixels wide.\<close>

theorem drag_move_bounded_percentage_witness:
  "isDragging (handleDragStart desktop_view initial_page) \<and>
   isDesktopViewport desktop_view \<and> container_offsetWidth desktop_view \<noteq> 0 \<and>
   (\<exists>p q. 20 \<le> p \<and> p \<le> 80 \<and> 20 \<le> q \<and> q \<le> 80 \<and>
      js_minus 100 (Fin p) = Fin q \<and> \<bar>p + q - 100\<bar> \<le> 1 / 2 ^ 47 \<and>
      dev_width (handleDragMove desktop_view (pointer_at 300 50)
        (handleDragStart desktop_view initial_page)) = Some (Percent (Fin p)) \<and>
      design_width (handleDragMove desktop_view (pointer_at 300 50)
        (handleDragStart desktop_view initial_page)) = Some (Percent (Fin q)))"
proof -
  have d: "isDragging (handleDragStart desktop_view initial_page)"
    by (simp add: handleDragStart_def)
  have k: "isDesktopViewport desktop_view" "container_offsetWidth desktop_view \<noteq> 0"
    by (simp_all add: isDesktopViewport_def desktop_view_def)
  have h: "if isDesktopViewport desktop_view
           then container_offsetWidth desktop_view \<noteq> 0 \<or> clientX (pointer_at 300 50) \<noteq> 0
           else container_offsetHeight desktop_view \<noteq> 0 \<or> clientY (pointer_at 300 50) \<noteq> 0"
    using k by simp
  from drag_move_bounded_percentage[OF d h] show ?thesis
    using d k by simp
qed

text \<open>The pointer at \<open>x = 290\<close> over a container 1000 pixels wide: \<open>290 / 1000\<close> is
  the double below \<open>0.29\<close>, its product with 100 is \<open>28.999999999999996\<close>, the double
  below 29, and 100 minus that rounds to 71.\<close>

lemma fl_29_100: "fl (29 / 100) = 5224175567749775 / 2 ^ 54"
  using fl_below_one[of 2 "29 / 100"] by (simp add: round_even_def Let_def)

lemma fl_29: "fl (5224175567749775 / 2 ^ 54 * 100) = 8162774324609023 / 2 ^ 48"
  using fl_at_least_one[of 4 "5224175567749775 / 2 ^ 54 * 100"] by (simp add: round_even_def Let_def)

lemma fl_71: "fl (100 - 8162774324609023 / 2 ^ 48) = 71"
  using fl_at_least_one[of 6 "100 - 8162774324609023 / 2 ^ 48"] by (simp add: round_even_def Let_def)

lemma percent_290: "js_times (js_div 290 1000) 100 = Fin (8162774324609023 / 2 ^ 48)"
proof -
  have "js_div 290 1000 = Fin (5224175567749775 / 2 ^ 54)"
    using fl_29_100 by (simp add: js_div_def js_round_def)
  then show ?thesis
    using fl_29 by (simp add: js_round_def)
qed

lemma remainder_290: "js_minus 100 (Fin (8162774324609023 / 281474976710656)) = Fin 71"
  using fl_71 by (simp add: js_round_def)

text \<open>C1 as stated fails in two ways. With the pointer at \<open>x = 290\<close> over a container
  1000 pixels wide the widths written are \<open>28.999999999999996%\<close> and \<open>71%\<close>, which
  do not sum to 100. Where the container has no extent and the pointer is at coordinate
  0, \<open>0 / 0\<close> is \<open>NaN\<close>, which \<open>Math.min\<close> and \<open>Math.max\<close> hand on, and \<open>NaN%\<close> is
  assigned to both widths.\<close>

theorem drag_move_counterexample:
  "isDragging (handleDragStart desktop_view initial_page) \<and>
   dev_width (handleDragMove desktop_view (pointer_at 290 50)
     (handleDragStart desktop_view initial_page))
     = Some (Percent (Fin (8162774324609023 / 2 ^ 48))) \<and>
   design_width (handleDragMove desktop_view (pointer_at 290 50)
     (handleDragStart desktop_view initial_page)) = Some (Percent (Fin 71)) \<and>
   8162774324609023 / 2 ^ 48 + 71 \<noteq> (100::real) \<and>
   dev_width (handleDragMove collapsed_view (pointer_at 0 300)
     (handleDragStart collapsed_view initial_page)) = Some (Percent NaN) \<and>
   design_width (handleDragMove collapsed_view (pointer_at 0 300)
     (handleDragStart collapsed_view initial_page)) = Some (Percent NaN)"
proof -
  have b: "getBoundedPercentage (Fin (8162774324609023 / 281474976710656))
      = Fin (8162774324609023 / 281474976710656)"
    by (simp add: getBoundedPercentage_cases)
  have "handleDragMove desktop_view (pointer_at 290 50) (handleDragStart desktop_view initial_page)
      = (handleDragStart desktop_view initial_page)
          \<lparr>dev_width := Some (Percent (Fin (8162774324609023 / 2 ^ 48))),
           design_width := Some (Percent (Fin 71))\<rparr>"
    by (simp add: handleDragMove_def handleDragStart_def handleHorizontalResize_def
        desktop_view_def pointer_at_def isDesktopViewport_def Let_def percent_290 b
        remainder_290 del: js_times.simps js_minus.simps)
  moreover have "handleDragMove collapsed_view (pointer_at 0 300)
        (handleDragStart collapsed_view initial_page)
      = (handleDragStart collapsed_view initial_page)
          \<lparr>dev_width := Some (Percent NaN), design_width := Some (Percent NaN)\<rparr>"
    by (simp add: handleDragMove_def handleDragStart_def handleHorizontalResize_def
        collapsed_view_def pointer_at_def isDesktopViewport_def js_div_def
        getBoundedPercentage_def Math_max_def Math_min_def Let_def)
  ultimately show ?thesis by (simp add: handleDragStart_def)
qed

text \<open>
  C5, as the code has it. A touch-start on the divider always has its default
  prevented; the controller's touch-move listener calls \<open>preventDefault\<close> exactly when
  the controller is Dragging, and the event's default is prevented exactly when the
  touch targets the divider, the touch block's own drag flag is set or the controller
  is Dragging; every touch-end leaves the controller not Dragging.
\<close>

theorem touch_events_default_and_drag_state:
  "snd (dispatch v (TouchStart True e) s) \<and>
   snd (controller_touchmove v e s) = isDragging s \<and>
   snd (dispatch v (TouchMove on_divider e) s)
     = (on_divider \<or> touch_isDragging s \<or> isDragging s) \<and>
   isDragging (fst (dispatch v TouchEnd s)) = False"
  by (auto simp: and_then_def block_touchstart_def controller_touchstart_def
      controller_touchmove_def block_touchmove_def divider_touchmove_def no_listener_def
      block_touchend_def controller_touchend_def handleDragEnd_def split: prod.splits)

text \<open>C5 as stated fails with two fingers: one starts on the divider, a second one
  touches elsewhere and lifts (the touch-end clears both drag flags), then the first
  finger moves. Its touch-move targets the divider, whose own listener prevents the
  default although the controller is no longer Dragging.\<close>

theorem touch_move_on_divider_counterexample:
  "snd (dispatch phone_view (TouchMove True (pointer_at 200 520))
      (run [(phone_view, TouchStart True (pointer_at 200 500)),
            (phone_view, TouchStart False (pointer_at 100 100)),
            (phone_view, TouchEnd)] initial_page)) \<and>
   \<not> isDragging
      (run [(phone_view, TouchStart True (pointer_at 200 500)),
            (phone_view, TouchStart False (pointer_at 100 100)),
            (phone_view, TouchEnd)] initial_page)"
  by (simp add: and_then_def block_touchstart_def controller_touchstart_def
      controller_touchmove_def block_touchmove_def divider_touchmove_def no_listener_def
      block_touchend_def controller_touchend_def handleDragEnd_def handleDragStart_def
      initial_page_def)

text \<open>
  C10, as the code has it. While the touch block's drag flag is set, a touch-move
  writes a primary height \<open>h\<close> of at least 100 pixels and the secondary height
  \<open>innerHeight - h\<close>, so the two sum to the viewport height; \<open>h\<close> is at most
  \<open>innerHeight - 100\<close> when the viewport is at least 200 pixels high and is exactly 100
  otherwise. The bounds are in pixels: on a viewport 1000 pixels high the primary height
  can be 100 pixels, a tenth of the viewport.
\<close>

theorem touch_block_pixel_bounds:
  assumes "touch_isDragging s"
  shows "(\<exists>h. dev_height (fst (block_touchmove v e s)) = Some (Px h) \<and>
            design_height (fst (block_touchmove v e s)) = Some (Px (real (innerHeight v) - h)) \<and>
            100 \<le> h \<and>
            (if 200 \<le> innerHeight v then h \<le> real (innerHeight v) - 100 else h = 100) \<and>
            h + (real (innerHeight v) - h) = real (innerHeight v)) \<and>
         (\<exists>h. dev_height (fst (block_touchmove phone_view (pointer_at 200 0)
                  (fst (block_touchstart phone_view (pointer_at 200 500) initial_page))))
                = Some (Px h) \<and>
               h / real (innerHeight phone_view) * 100 < MIN_SIZE_PERCENTAGE)"
proof
  show "\<exists>h. dev_height (fst (block_touchmove v e s)) = Some (Px h) \<and>
            design_height (fst (block_touchmove v e s)) = Some (Px (real (innerHeight v) - h)) \<and>
            100 \<le> h \<and>
            (if 200 \<le> innerHeight v then h \<le> real (innerHeight v) - 100 else h = 100) \<and>
            h + (real (innerHeight v) - h) = real (innerHeight v)"
    using assms
    by (intro exI[of _ "newHeight v e s"])
       (auto simp: block_touchmove_def newHeight_def Let_def)
  show "\<exists>h. dev_height (fst (block_touchmove phone_view (pointer_at 200 0)
                  (fst (block_touchstart phone_view (pointer_at 200 500) initial_page))))
                = Some (Px h) \<and>
               h / real (innerHeight phone_view) * 100 < MIN_SIZE_PERCENTAGE"
    by (simp add: block_touchmove_def block_touchstart_def newHeight_def phone_view_def
        pointer_at_def initial_page_def MIN_SIZE_PERCENTAGE_def Let_def)
qed

text \<open>The theorem at a touch that starts on the divider at \<open>y = 500\<close> and moves to
  \<open>y = 620\<close> on a viewport 1000 pixels high whose primary panel was 500 pixels high.\<close>

theorem touch_block_pixel_bounds_witness:
  "touch_isDragging (fst (block_touchstart phone_view (pointer_at 200 500) initial_page)) \<and>
   dev_height (fst (block_touchmove phone_view (pointer_at 200 620)
      (fst (block_touchstart phone_view (pointer_at 200 500) initial_page)))) = Some (Px 620) \<and>
   design_height (fst (block_touchmove phone_view (pointer_at 200 620)
      (fst (block_touchstart phone_view (pointer_at 200 500) initial_page)))) = Some (Px 380)"
proof -
  let ?s = "fst (block_touchstart phone_view (pointer_at 200 500) initial_page)"
  have d: "touch_isDragging ?s"
    by (simp add: block_touchstart_def)
  have n: "newHeight phone_view (pointer_at 200 620) ?s = 620"
    by (simp add: newHeight_def block_touchstart_def phone_view_def pointer_at_def Let_def)
  from touch_block_pixel_bounds[OF d, of phone_view "pointer_at 200 620"] show ?thesis
    using d n by (simp add: block_touchmove_def phone_view_def)
qed

text \<open>C10 as stated fails on a viewport lower than 200 pixels: with
  \<open>innerHeight = 150\<close> the primary height is 100, above \<open>innerHeight - 100 = 50\<close>.\<close>

theorem touch_block_low_viewport_counterexample:
  "touch_isDragging (fst (block_touchstart tiny_view (pointer_at 10 75) initial_page)) \<and>
   dev_height (fst (block_touchmove tiny_view (pointer_at 10 80)
      (fst (block_touchstart tiny_view (pointer_at 10 75) initial_page)))) = Some (Px 100) \<and>
   \<not> (100 \<le> real (innerHeight tiny_view) - 100)"
  by (simp add: block_touchmove_def block_touchstart_def newHeight_def tiny_view_def
      pointer_at_def initial_page_def Let_def)

section \<open>Properties of the canvas animation\<close>

subsection \<open>Trailing dots\<close>

lemma hypot_less_iff: "0 \<le> c \<Longrightarrow> Math_hypot a b < c \<longleftrightarrow> a\<^sup>2 + b\<^sup>2 < c\<^sup>2"
proof -
  assume c: "0 \<le> c"
  have "Math_hypot a b < c \<longleftrightarrow> sqrt (a\<^sup>2 + b\<^sup>2) < sqrt (c\<^sup>2)"
    using c by (simp add: Math_hypot_def)
  then show ?thesis by (simp only: real_sqrt_less_iff)
qed
















subsection \<open>Spacing of the labels and size of the used set\<close>

lemma spaced_snoc:
  "spaced (ps @ [q]) \<longleftrightarrow>
     spaced ps \<and>
     (ps = [] \<or> 150 \<le> Math_hypot (pos_x q - pos_x (last ps)) (pos_y q - pos_y (last ps)))"
  by (induction ps rule: spaced.induct) auto

lemma spaced_draw_words: "spaced (map draw_word ws) = spaced ws"
  by (induction ws rule: spaced.induct) (auto simp: draw_word_def)

lemma draw_word_keeps:
  "pos_x (draw_word w) = pos_x w" "pos_y (draw_word w) = pos_y w"
  "word_text (draw_word w) = word_text w"
  by (simp_all add: draw_word_def)

lemma labels_ok_addText: "labels_ok s \<Longrightarrow> labels_ok (addText r a b s)"
  by (auto simp: labels_ok_def addText_def Let_def spaced_snoc not_less)

lemma labels_ok_handleWordGeneration: "labels_ok s \<Longrightarrow> labels_ok (handleWordGeneration r s)"
  by (simp add: handleWordGeneration_def labels_ok_addText)

lemma labels_ok_updateDots: "labels_ok (updateDots s) = labels_ok s"
  by (simp add: labels_ok_def updateDots_def)

lemma labels_ok_drawWords: "labels_ok s \<Longrightarrow> labels_ok (drawWords s)"
  by (auto simp: labels_ok_def drawWords_def spaced_draw_words last_map draw_word_keeps)

lemma labels_ok_step: "labels_ok s \<Longrightarrow> labels_ok (canvas_step ev s)"
proof (cases ev)
  case (MouseMoved e l t)
  assume "labels_ok s"
  then show ?thesis
    using MouseMoved by (simp add: labels_ok_def canvas_mousemove_def)
next
  case (Frame r)
  assume "labels_ok s"
  then show ?thesis
    using Frame
    by (simp add: animateFrame_def labels_ok_drawWords labels_ok_handleWordGeneration
        labels_ok_updateDots)
qed

lemma labels_ok_run: "labels_ok s \<Longrightarrow> labels_ok (canvas_run evs s)"
  by (induction evs arbitrary: s) (simp_all add: labels_ok_step)

lemma labels_ok_new: "labels_ok new_canvas"
  by (simp add: labels_ok_def new_canvas_def createDots_def)

lemma used_bound_addText:
  "fcard (usedWords s) < n \<Longrightarrow> fcard (usedWords (addText r a b s)) \<le> n"
  by (auto simp: addText_def Let_def fcard_finsert_if fcard_fempty)

lemma used_bound_handleWordGeneration:
  "fcard (usedWords s) \<le> length designTerms \<Longrightarrow>
   fcard (usedWords (handleWordGeneration r s)) \<le> length designTerms"
  by (simp add: handleWordGeneration_def used_bound_addText)

lemma used_bound_step:
  "fcard (usedWords s) \<le> length designTerms \<Longrightarrow>
   fcard (usedWords (canvas_step ev s)) \<le> length designTerms"
proof (cases ev)
  case (MouseMoved e l t)
  assume "fcard (usedWords s) \<le> length designTerms"
  then show ?thesis using MouseMoved by (simp add: canvas_mousemove_def)
next
  case (Frame r)
  assume "fcard (usedWords s) \<le> length designTerms"
  then have "fcard (usedWords (handleWordGeneration r (updateDots s))) \<le> length designTerms"
    by (intro used_bound_handleWordGeneration) (simp add: updateDots_def)
  then show ?thesis using Frame by (simp add: animateFrame_def drawWords_def)
qed

lemma used_bound_run:
  "fcard (usedWords s) \<le> length designTerms \<Longrightarrow>
   fcard (usedWords (canvas_run evs s)) \<le> length designTerms"
  by (induction evs arbitrary: s) (simp_all add: used_bound_step)

text \<open>
  C9. After any sequence of pointer moves and frames on a new canvas, whatever the
  random draws, every label lies at least 150 pixels from the label placed before it,
  and the used-word set holds at most as many entries as the vocabulary has words.
\<close>

theorem labels_spaced_and_used_bounded:
  "spaced (renderedWords (canvas_run evs new_canvas)) \<and>
   fcard (usedWords (canvas_run evs new_canvas)) \<le> length designTerms"
proof
  have "labels_ok (canvas_run evs new_canvas)"
    by (rule labels_ok_run [OF labels_ok_new])
  then show "spaced (renderedWords (canvas_run evs new_canvas))"
    by (simp add: labels_ok_def)
  have "fcard (usedWords new_canvas) \<le> length designTerms"
    by (simp add: new_canvas_def createDots_def fcard_fempty)
  then show "fcard (usedWords (canvas_run evs new_canvas)) \<le> length designTerms"
    by (rule used_bound_run)
qed

subsection \<open>Use and reset of the vocabulary\<close>

lemma designTerms_distinct: "distinct designTerms"
  by (simp add: designTerms_def)

lemma filled_used: "usedWords filled_canvas = fset_of_list (map Some (rev designTerms))"
  by (simp add: filled_canvas_def place_at_def lucky_def new_canvas_def createDots_def
      canvas_mousemove_def animateFrame_def updateDots_def handleWordGeneration_def
      addText_def drawWords_def designTerms_def hypot_less_iff element_at_def
      pointer_at_def Let_def fcard_finsert_if fcard_fempty)

lemma filled_card: "fcard (usedWords filled_canvas) = length designTerms"
  by (simp add: filled_used) (simp add: designTerms_def fcard_finsert_if fcard_fempty)

lemma filled_texts: "placed_texts filled_canvas = map Some designTerms"
  by (simp add: placed_texts_def filled_canvas_def place_at_def lucky_def new_canvas_def
      createDots_def canvas_mousemove_def animateFrame_def updateDots_def
      handleWordGeneration_def addText_def drawWords_def draw_word_def designTerms_def
      hypot_less_iff element_at_def pointer_at_def Let_def fcard_finsert_if fcard_fempty)

lemma handleWordGeneration_full:
  "length designTerms \<le> fcard (usedWords s) \<Longrightarrow> handleWordGeneration r s = s"
  by (simp add: handleWordGeneration_def)

lemma step_full:
  assumes "length designTerms \<le> fcard (usedWords s)"
  shows "usedWords (canvas_step ev s) = usedWords s \<and>
         placed_texts (canvas_step ev s) = placed_texts s"
proof (cases ev)
  case (MouseMoved e l t)
  then show ?thesis by (simp add: canvas_mousemove_def placed_texts_def)
next
  case (Frame r)
  have "handleWordGeneration r (updateDots s) = updateDots s"
    using assms by (intro handleWordGeneration_full) (simp add: updateDots_def)
  then show ?thesis
    using Frame
    by (simp add: animateFrame_def drawWords_def updateDots_def draw_word_keeps
        placed_texts_def)
qed

lemma element_at_member: "element_at xs i = Some a \<Longrightarrow> a \<in> set xs"
  by (auto simp: element_at_def split: if_splits)

lemma available_when_not_full:
  assumes "fcard (usedWords s) < length designTerms"
  shows "filter (\<lambda>term. Some term |\<notin>| usedWords s) designTerms \<noteq> []"
proof
  assume "filter (\<lambda>term. Some term |\<notin>| usedWords s) designTerms = []"
  then have "Some ` set designTerms \<subseteq> fset (usedWords s)"
    by (auto simp: filter_empty_conv)
  then have "card (Some ` set designTerms) \<le> card (fset (usedWords s))"
    by (intro card_mono) simp_all
  moreover have "card (Some ` set designTerms) = length designTerms"
    by (simp add: card_image distinct_card designTerms_distinct)
  ultimately show False
    using assms by (simp add: fcard.rep_eq)
qed

lemma usedWords_grows: "usedWords s |\<subseteq>| usedWords (handleWordGeneration r s)"
  using available_when_not_full[of s]
  by (auto simp: handleWordGeneration_def addText_def Let_def)

lemma placed_once_handleWordGeneration:
  assumes "placed_once s"
  shows "placed_once (handleWordGeneration r s)"
proof (cases "0.95 < gate r \<and> fcard (usedWords s) < length designTerms
     \<and> \<not> Math_hypot (pos_x (mousePosition s) + 30 - pos_x (lastTextPosition s))
            (pos_y (mousePosition s) - pos_y (lastTextPosition s)) < 150")
  case False
  then show ?thesis
    using assms by (auto simp: handleWordGeneration_def addText_def Let_def)
next
  case True
  let ?avail = "filter (\<lambda>term. Some term |\<notin>| usedWords s) designTerms"
  let ?text = "element_at ?avail \<lfloor>pick r * real (length ?avail)\<rfloor>"
  from True have ne: "?avail \<noteq> []"
    by (intro available_when_not_full) simp
  have fresh: "?text \<noteq> None \<Longrightarrow> ?text \<notin> set (placed_texts s)"
  proof -
    assume "?text \<noteq> None"
    then obtain a where a: "?text = Some a" by blast
    from element_at_member[OF this] have "Some a |\<notin>| usedWords s" by simp
    with assms a show ?thesis by (auto simp: placed_once_def)
  qed
  have "placed_texts (handleWordGeneration r s) = placed_texts s @ [?text]"
    "usedWords (handleWordGeneration r s) = finsert ?text (usedWords s)"
    using True ne by (simp_all add: handleWordGeneration_def addText_def Let_def placed_texts_def)
  then show ?thesis
    using assms fresh by (auto simp: placed_once_def)
qed

lemma placed_once_drawWords: "placed_once (drawWords s) = placed_once s"
proof -
  have "word_text \<circ> draw_word = word_text"
    by (rule ext) (simp add: draw_word_keeps)
  then show ?thesis
    by (simp add: placed_once_def placed_texts_def drawWords_def)
qed

lemma placed_once_step: "placed_once s \<Longrightarrow> placed_once (canvas_step ev s)"
proof (cases ev)
  case (MouseMoved e l t)
  assume "placed_once s"
  then show ?thesis
    using MouseMoved by (simp add: placed_once_def placed_texts_def canvas_mousemove_def)
next
  case (Frame r)
  assume "placed_once s"
  then have "placed_once (updateDots s)"
    by (simp add: placed_once_def placed_texts_def updateDots_def)
  then have "placed_once (handleWordGeneration r (updateDots s))"
    by (rule placed_once_handleWordGeneration)
  then show ?thesis
    using Frame by (simp add: animateFrame_def placed_once_drawWords)
qed

lemma placed_once_run: "placed_once s \<Longrightarrow> placed_once (canvas_run evs s)"
  by (induction evs arbitrary: s) (simp_all add: placed_once_step)

text \<open>No vocabulary word is ever placed on two labels: a word is drawn from the
  terms not yet used, and the used-word set never loses an entry.\<close>

lemma each_word_placed_at_most_once:
  "distinct (filter (\<lambda>t. t \<noteq> None) (placed_texts (canvas_run evs new_canvas)))"
proof -
  have "placed_once new_canvas"
    by (simp add: placed_once_def placed_texts_def new_canvas_def createDots_def)
  then have "placed_once (canvas_run evs new_canvas)"
    by (rule placed_once_run)
  then show ?thesis by (simp add: placed_once_def)
qed

text \<open>
  C2, where the code departs from it. Once the used-word set holds as many entries as
  the vocabulary has words, \<open>handleWordGeneration\<close> no longer calls \<open>addText\<close>, so
  the branch of \<open>addText\<close> that clears the set is never run: whatever events follow,
  the used-word set stays as it is and no label is added.
\<close>

theorem exhausted_vocabulary_is_never_reset:
  assumes "length designTerms \<le> fcard (usedWords s)"
  shows "usedWords (canvas_run evs s) = usedWords s \<and>
         placed_texts (canvas_run evs s) = placed_texts s"
  using assms
proof (induction evs arbitrary: s)
  case Nil
  show ?case by simp
next
  case (Cons ev evs)
  from step_full[OF Cons.prems]
  have st: "usedWords (canvas_step ev s) = usedWords s"
    "placed_texts (canvas_step ev s) = placed_texts s"
    by simp_all
  with Cons.prems have "length designTerms \<le> fcard (usedWords (canvas_step ev s))" by simp
  from Cons.IH[OF this] show ?case using st by simp
qed

text \<open>The theorem on the canvas on which all eleven words have been placed: another
  winning draw 700 pixels from the last label places nothing and resets nothing.\<close>

theorem exhausted_vocabulary_is_never_reset_witness:
  "length designTerms \<le> fcard (usedWords filled_canvas) \<and>
   placed_texts filled_canvas = map Some designTerms \<and>
   usedWords (place_at 900 filled_canvas) = usedWords filled_canvas \<and>
   placed_texts (place_at 900 filled_canvas) = map Some designTerms"
proof -
  have h: "length designTerms \<le> fcard (usedWords filled_canvas)"
    by (simp add: filled_card)
  from exhausted_vocabulary_is_never_reset[OF h] show ?thesis
    using h by (simp add: place_at_def filled_texts del: canvas_run.simps)
qed

section \<open>Properties of the parallax effect\<close>









section \<open>Properties of the project feeds\<close>

subsection \<open>Repository feed\<close>

lemma string_of_404: "string_of_nat 404 = ''404''"
  by (simp add: string_of_nat.simps digit_char_def)

text \<open>
  C6. With \<open>#projects-grid\<close> in the page, a response with a status from 200 to 299
  whose body is the empty array leaves the grid with no card and no error block; a
  response with status 404, whatever its body, leaves exactly the error block with the
  text \<open>Error loading projects: GitHub API error: 404\<close>.
\<close>

theorem repository_feed_empty_array_and_404:
  "(response_ok status \<longrightarrow>
      fetchGitHubRepos (Response status (Parsed (Array []))) (Some old) = Inr (Some (Cards []))) \<and>
   fetchGitHubRepos (Response 404 b) (Some old)
     = Inr (Some (ErrorBlock ''Error loading projects: GitHub API error: 404''))"
  by (simp add: fetchGitHubRepos_def fetchGitHubRepos_try_def response_ok_def string_of_404)

text \<open>The theorem at status 200 with an empty array, and at a 404 whose body is not
  JSON.\<close>

theorem repository_feed_empty_array_and_404_witness:
  "response_ok 200 \<and>
   fetchGitHubRepos (Response 200 (Parsed (Array []))) (Some Spinner) = Inr (Some (Cards [])) \<and>
   fetchGitHubRepos (Response 404 (Unparsable ''Unexpected token'')) (Some Spinner)
     = Inr (Some (ErrorBlock ''Error loading projects: GitHub API error: 404''))"
proof -
  have h: "response_ok 200" by (simp add: response_ok_def)
  from repository_feed_empty_array_and_404[of 200 Spinner "Unparsable ''Unexpected token''"]
  show ?thesis using h by simp
qed

subsection \<open>Design-file feed\<close>

lemma mset_insert_by: "mset (insert_by cmp a xs) = add_mset a (mset xs)"
  by (induction xs) simp_all

lemma mset_sort_by: "mset (sort_by cmp xs) = mset xs"
  by (induction xs) (simp_all add: mset_insert_by)

lemma length_sort_by: "length (sort_by cmp xs) = length xs"
  using mset_sort_by[of cmp xs] by (metis size_mset)

lemma set_insert_by: "set (insert_by cmp a xs) = insert a (set xs)"
  using mset_insert_by[of cmp a xs] by (metis set_mset_add_mset_insert set_mset_mset)

lemma sorted_insert_by:
  "sorted_wrt not_older xs \<Longrightarrow> sorted_wrt not_older (insert_by newest_first a xs)"
  by (induction xs) (auto simp: set_insert_by newest_first_def not_older_def)

lemma sorted_sort_by: "sorted_wrt not_older (sort_by newest_first xs)"
  by (induction xs) (simp_all add: sorted_insert_by)

lemma sorted_take_drop:
  assumes "sorted_wrt P xs" "k \<in> set (take n xs)" "r \<in> set (drop n xs)"
  shows "P k r"
proof -
  from assms(1) have "sorted_wrt P (take n xs @ drop n xs)" by simp
  with assms(2,3) show ?thesis by (simp only: sorted_wrt_append)
qed

lemma collect_two:
  assumes "files_answer api (project_id p) = Response st1 (Parsed (Items fs))"
    and "files_answer api (project_id q) = Response st2 (Parsed (Items gs))"
  shows "collect_files api [p, q] [] = Inr (fs @ gs)"
  using assms by (simp add: getFigmaProjectFiles_def getFigmaProjectFiles_try_def)

text \<open>
  C7. With \<open>#design-projects\<close> in the page, a team answer that lists two projects whose
  file lists hold seven files together leaves five cards, made in order from five of
  the files: they are in descending order of \<open>last_modified\<close>, and each of them was
  modified no earlier than any of the two files left out.
\<close>

theorem five_most_recent_files_rendered:
  assumes "team_answer api = Response status (Parsed (Items [p, q]))"
    and "files_answer api (project_id p) = Response st1 (Parsed (Items fs))"
    and "files_answer api (project_id q) = Response st2 (Parsed (Items gs))"
    and "length fs + length gs = 7"
  shows "\<exists>kept rest.
      fetchRecentFigmaFiles api (Some old) = Some (Cards (map renderFigmaProject kept)) \<and>
      length kept = 5 \<and>
      mset kept + mset rest = mset (fs @ gs) \<and>
      sorted_wrt not_older kept \<and>
      (\<forall>k \<in> set kept. \<forall>r \<in> set rest. last_modified r \<le> last_modified k)"
proof -
  let ?sorted = "sort_by newest_first (fs @ gs)"
  have r: "recentFiles api = Inr (take 5 ?sorted)"
    using assms(1) collect_two[OF assms(2,3)] by (simp add: recentFiles_def)
  have f: "fetchRecentFigmaFiles api (Some old) = Some (Cards (map renderFigmaProject (take 5 ?sorted)))"
    by (simp add: fetchRecentFigmaFiles_def r renderFigmaProjects_def)
  have l: "length (take 5 ?sorted) = 5"
    using assms(4) by (simp add: length_sort_by)
  have "mset (take 5 ?sorted) + mset (drop 5 ?sorted) = mset ?sorted"
    by (metis append_take_drop_id mset_append)
  then have m: "mset (take 5 ?sorted) + mset (drop 5 ?sorted) = mset (fs @ gs)"
    by (simp only: mset_sort_by)
  have s: "sorted_wrt not_older ?sorted" by (rule sorted_sort_by)
  then have st: "sorted_wrt not_older (take 5 ?sorted)"
    by (rule sorted_wrt_take)
  have o: "\<forall>k \<in> set (take 5 ?sorted). \<forall>r \<in> set (drop 5 ?sorted). last_modified r \<le> last_modified k"
    using sorted_take_drop[OF s] by (auto simp: not_older_def)
  from f l m st o show ?thesis by blast
qed

text \<open>The theorem on two projects with three and four files, modified at the times
  30, 10, 50 and 20, 70, 40, 60: the cards are those of 70, 60, 50, 40, 30.\<close>

theorem five_most_recent_files_rendered_witness:
  "team_answer example_api = Response 200 (Parsed (Items [\<lparr>project_id = ''p1''\<rparr>, \<lparr>project_id = ''p2''\<rparr>])) \<and>
   fetchRecentFigmaFiles example_api (Some Spinner)
     = Some (Cards (map renderFigmaProject
         [example_file ''e'' 70, example_file ''g'' 60, example_file ''c'' 50,
          example_file ''f'' 40, example_file ''a'' 30]))"
proof -
  have t: "team_answer example_api
      = Response 200 (Parsed (Items [\<lparr>project_id = ''p1''\<rparr>, \<lparr>project_id = ''p2''\<rparr>]))"
    by (simp add: example_api_def)
  have a: "files_answer example_api (project_id \<lparr>project_id = ''p1''\<rparr>)
      = Response 200 (Parsed (Items
               [example_file ''a'' 30, example_file ''b'' 10, example_file ''c'' 50]))"
    by (simp add: example_api_def)
  have b: "files_answer example_api (project_id \<lparr>project_id = ''p2''\<rparr>)
      = Response 200 (Parsed (Items
               [example_file ''d'' 20, example_file ''e'' 70, example_file ''f'' 40,
                example_file ''g'' 60]))"
    by (simp add: example_api_def)
  have n: "length [example_file ''a'' 30, example_file ''b'' 10, example_file ''c'' 50]
      + length [example_file ''d'' 20, example_file ''e'' 70, example_file ''f'' 40,
                example_file ''g'' 60] = 7"
    by simp
  from five_most_recent_files_rendered[OF t a b n, of Spinner]
  show ?thesis
    using t
    by (simp add: fetchRecentFigmaFiles_def recentFiles_def renderFigmaProjects_def
        getFigmaProjectFiles_def getFigmaProjectFiles_try_def example_api_def
        example_file_def newest_first_def)
qed

subsection \<open>Failures\<close>

lemma collect_files_throws:
  "p \<in> set ps \<Longrightarrow> getFigmaProjectFiles api (project_id p) = None \<Longrightarrow>
   \<exists>e. collect_files api ps acc = Inl e"
  by (induction ps arbitrary: acc) (auto split: option.splits)

text \<open>The design-file renderer never looks at the status of an answer.\<close>

lemma design_feed_ignores_status:
  "team_answer api = Response status b \<Longrightarrow>
   fetchRecentFigmaFiles (api\<lparr>team_answer := Response status' b\<rparr>) container
     = fetchRecentFigmaFiles api container"
proof -
  assume t: "team_answer api = Response status b"
  have g: "getFigmaProjectFiles (api\<lparr>team_answer := a\<rparr>) i = getFigmaProjectFiles api i" for a i
    by (simp add: getFigmaProjectFiles_def getFigmaProjectFiles_try_def)
  have "collect_files (api\<lparr>team_answer := a\<rparr>) ps acc = collect_files api ps acc" for a ps acc
    by (induction ps arbitrary: acc) (simp_all add: g split: option.splits)
  then have "recentFiles (api\<lparr>team_answer := Response status' b\<rparr>) = recentFiles api"
    using t by (simp add: recentFiles_def)
  then show ?thesis
    by (cases container) (simp_all add: fetchRecentFigmaFiles_def)
qed

text \<open>
  C3, as the code has it. With its container in the page, each renderer ends with a
  content in the container and never with an error of its own. The repository renderer
  shows an error block in place of the spinner for every failure of its request (fetch
  rejected, status outside 200 to 299, body not JSON, body not an array). The
  design-file renderer shows an error block when the team answer yields no project list
  (fetch rejected, body not JSON, body \<open>null\<close>, \<open>projects\<close> not iterable) and when the
  answer for a listed project has no iterable \<open>files\<close>; a file-list request that is
  rejected, or whose body is not JSON or is \<open>null\<close>, is caught in
  \<open>getFigmaProjectFiles\<close> and counts as an empty file list.
\<close>

theorem feed_failures_shown_inline:
  "(repository_failure answer \<longrightarrow>
      (\<exists>text. fetchGitHubRepos answer (Some old) = Inr (Some (ErrorBlock text)))) \<and>
   (\<exists>content. fetchGitHubRepos answer (Some old) = Inr (Some content)) \<and>
   (without_list (team_answer api) \<longrightarrow>
      (\<exists>text. fetchRecentFigmaFiles api (Some old') = Some (ErrorBlock text))) \<and>
   (team_answer api = Response status (Parsed (Items projects)) \<and> p \<in> set projects \<and>
    files_answer api (project_id p) = Response status' (Parsed NoList) \<longrightarrow>
      (\<exists>text. fetchRecentFigmaFiles api (Some old') = Some (ErrorBlock text))) \<and>
   (swallowed (files_answer api i) \<longrightarrow> getFigmaProjectFiles api i = Some []) \<and>
   (\<exists>content. fetchRecentFigmaFiles api (Some old') = Some content)"
proof (intro conjI impI)
  assume "repository_failure answer"
  then show "\<exists>text. fetchGitHubRepos answer (Some old) = Inr (Some (ErrorBlock text))"
    by (auto simp: repository_failure_def fetchGitHubRepos_def fetchGitHubRepos_try_def
        split: fetched.splits body.splits repos_json.splits if_splits)
next
  show "\<exists>content. fetchGitHubRepos answer (Some old) = Inr (Some content)"
    by (simp add: fetchGitHubRepos_def split: sum.splits)
next
  assume "without_list (team_answer api)"
  then show "\<exists>text. fetchRecentFigmaFiles api (Some old') = Some (ErrorBlock text)"
    by (auto simp: without_list_def fetchRecentFigmaFiles_def recentFiles_def
        split: fetched.splits body.splits listing.splits)
next
  assume a: "team_answer api = Response status (Parsed (Items projects)) \<and> p \<in> set projects \<and>
    files_answer api (project_id p) = Response status' (Parsed NoList)"
  then have "getFigmaProjectFiles api (project_id p) = None"
    by (simp add: getFigmaProjectFiles_def getFigmaProjectFiles_try_def)
  with a obtain e where "collect_files api projects [] = Inl e"
    using collect_files_throws by blast
  with a show "\<exists>text. fetchRecentFigmaFiles api (Some old') = Some (ErrorBlock text)"
    by (simp add: fetchRecentFigmaFiles_def recentFiles_def)
next
  assume "swallowed (files_answer api i)"
  then show "getFigmaProjectFiles api i = Some []"
    by (auto simp: swallowed_def getFigmaProjectFiles_def getFigmaProjectFiles_try_def
        split: fetched.splits body.splits listing.splits)
next
  show "\<exists>content. fetchRecentFigmaFiles api (Some old') = Some content"
    by (simp add: fetchRecentFigmaFiles_def renderFigmaProjects_def split: sum.splits)
qed

text \<open>The theorem at a repository answer with status 500, a rejected team request, a
  file-list answer without \<open>files\<close>, and a rejected file-list request.\<close>

theorem feed_failures_shown_inline_witness:
  "repository_failure (Response 500 (Parsed (Array []))) \<and>
   fetchGitHubRepos (Response 500 (Parsed (Array []))) (Some Spinner)
     = Inr (Some (ErrorBlock ''Error loading projects: GitHub API error: 500'')) \<and>
   without_list (team_answer team_down_api) \<and>
   fetchRecentFigmaFiles team_down_api (Some Spinner) = Some (ErrorBlock ''Failed to fetch'') \<and>
   files_answer files_denied_api (project_id \<lparr>project_id = ''p1''\<rparr>)
     = Response 403 (Parsed NoList) \<and>
   fetchRecentFigmaFiles files_denied_api (Some Spinner)
     = Some (ErrorBlock ''TypeError: files is not iterable'') \<and>
   swallowed (files_answer files_down_api ''p1'') \<and>
   getFigmaProjectFiles files_down_api ''p1'' = Some []"
proof -
  have s: "string_of_nat 500 = ''500''"
    by (simp add: string_of_nat.simps digit_char_def)
  have h: "repository_failure (Response 500 (Parsed (Array [])))"
    "without_list (team_answer team_down_api)"
    "swallowed (files_answer files_down_api ''p1'')"
    by (simp_all add: repository_failure_def response_ok_def without_list_def swallowed_def
        team_down_api_def files_down_api_def)
  have d: "team_answer files_denied_api = Response 200 (Parsed (Items [\<lparr>project_id = ''p1''\<rparr>]))"
    "files_answer files_denied_api (project_id \<lparr>project_id = ''p1''\<rparr>)
       = Response 403 (Parsed NoList)"
    by (simp_all add: files_denied_api_def)
  from feed_failures_shown_inline
         [where answer = "Response 500 (Parsed (Array []))" and old = Spinner
            and api = team_down_api and old' = Spinner]
       feed_failures_shown_inline
         [where api = files_denied_api and old' = Spinner and status = 200
            and projects = "[\<lparr>project_id = ''p1''\<rparr>]" and p = "\<lparr>project_id = ''p1''\<rparr>"
            and status' = 403]
       feed_failures_shown_inline
         [where api = files_down_api and i = "''p1''"]
  show ?thesis
    using h d
    by (simp add: fetchGitHubRepos_def fetchGitHubRepos_try_def response_ok_def s
        fetchRecentFigmaFiles_def recentFiles_def team_down_api_def files_denied_api_def
        getFigmaProjectFiles_def getFigmaProjectFiles_try_def)
qed

text \<open>C3 as stated fails at the design-file renderer when the request for a project's
  files is rejected: the rejection is caught in \<open>getFigmaProjectFiles\<close>, which returns
  the empty list, and the renderer replaces the spinner by no card and no error
  block.\<close>

theorem files_request_rejected_counterexample:
  "files_answer files_down_api ''p1'' = Rejected ''Failed to fetch'' \<and>
   fetchRecentFigmaFiles files_down_api (Some Spinner) = Some (Cards [])"
  by (simp add: files_down_api_def fetchRecentFigmaFiles_def recentFiles_def
      renderFigmaProjects_def getFigmaProjectFiles_def getFigmaProjectFiles_try_def)

end
